theory Spec2Isabelle
  imports Main "HOL-Library.Char_ord" "HOL-Library.List_Lexorder"
begin

section \<open>Values, AST nodes and documents\<close>

text \<open>
  Property values are JavaScript values as they come out of \<^verbatim>\<open>JSON.parse\<close>, together with
  \<^verbatim>\<open>undefined\<close>. An object is the list of its entries in enumeration order
  (\<^verbatim>\<open>Object.entries\<close>); the model covers objects whose keys are not array indices, for
  which enumeration order is insertion order. Numbers are the integer-valued ones.
\<close>

datatype json =
    JUndefined
  | JNull
  | JBool bool
  | JNum int
  | JStr string
  | JArr "json list"
  | JObj "(string \<times> json) list"

type_synonym props = "(string \<times> json) list"

text \<open>
  An element of a \<^verbatim>\<open>children\<close> array: \<^verbatim>\<open>UIASTNode | string\<close>. The third alternative
  is the value \<^verbatim>\<open>undefined\<close>, which the patch engine stores in an array when an
  \<^verbatim>\<open>add\<close> patch carries no component. Documents and patches are trees: no node object
  is shared between two places, as in anything read by \<^verbatim>\<open>JSON.parse\<close>.
\<close>

datatype child =
    Text string
  | Undefined
  | Node (ntype: string) (nprops: props) (nchildren: "child list")

datatype layout_kind = LStack | LGrid | LSidebar | LDashboard | LForm | LHero | LSplit | LFull

datatype theme_kind = Light | Dark

record UIAST =
  layout :: layout_kind
  theme :: theme_kind
  components :: "child list"

section \<open>Decimal numerals\<close>

definition digit_char :: "nat \<Rightarrow> char" where
  "digit_char d = char_of (48 + d)"

function show_nat :: "nat \<Rightarrow> string" where
  "show_nat n = (if n < 10 then [digit_char n] else show_nat (n div 10) @ [digit_char (n mod 10)])"
  by pat_completeness auto
termination
  by (relation "measure id") auto

declare show_nat.simps [simp del]

definition show_int :: "int \<Rightarrow> string" where
  "show_int i = (if i < 0 then CHR ''-'' # show_nat (nat (- i)) else show_nat (nat i))"

definition is_digit :: "char \<Rightarrow> bool" where
  "is_digit c = (CHR ''0'' \<le> c \<and> c \<le> CHR ''9'')"

text \<open>\<^verbatim>\<open>parseInt(digits, 10)\<close> on a non-empty run of decimal digits.\<close>

definition parseInt :: "string \<Rightarrow> nat" where
  "parseInt ds = foldl (\<lambda>acc c. 10 * acc + (of_char c - 48)) 0 ds"

section \<open>Patch engine\<close>

datatype patch_action = Add | Update | Remove | OtherAction string

record Patch =
  action :: patch_action
  targetPath :: string
  component :: "child option"
  pprops :: "props option"

record PatchResult =
  success :: bool
  ast :: UIAST
  appliedPatches :: nat
  errors :: "string list"

fun action_name :: "patch_action \<Rightarrow> string" where
  "action_name Add = ''add''"
| "action_name Update = ''update''"
| "action_name Remove = ''remove''"
| "action_name (OtherAction s) = s"

subsection \<open>parsePath\<close>

fun strip_prefix :: "'a list \<Rightarrow> 'a list \<Rightarrow> 'a list option" where
  "strip_prefix [] ys = Some ys"
| "strip_prefix (x # xs) [] = None"
| "strip_prefix (x # xs) (y # ys) = (if x = y then strip_prefix xs ys else None)"

text \<open>
  One attempt of the regular expression \<^verbatim>\<open>/children\[(\d+)\]/\<close> at the head of the
  string: the index it captures and the text after the match.
\<close>

definition match_step :: "string \<Rightarrow> (nat \<times> string) option" where
  "match_step s =
     (case strip_prefix ''children['' s of
        None \<Rightarrow> None
      | Some r \<Rightarrow>
          (let ds = takeWhile is_digit r; r' = dropWhile is_digit r in
           if ds = [] then None
           else (case r' of
                   [] \<Rightarrow> None
                 | c # r'' \<Rightarrow> if c = CHR '']'' then Some (parseInt ds, r'') else None)))"

lemma strip_prefix_length: "strip_prefix xs ys = Some r \<Longrightarrow> length r \<le> length ys"
  by (induction xs ys rule: strip_prefix.induct) (auto split: if_splits)

lemma match_step_shorter: "match_step s = Some (n, r) \<Longrightarrow> length r < length s"
proof -
  assume m: "match_step s = Some (n, r)"
  then obtain t where t: "strip_prefix ''children['' s = Some t"
    by (auto simp: match_step_def split: option.splits)
  with m obtain c where "dropWhile is_digit t = c # r"
    by (auto simp: match_step_def Let_def split: if_splits list.splits)
  then have "length r < length (dropWhile is_digit t)" by simp
  also have "\<dots> \<le> length t" by (rule length_dropWhile_le)
  also have "\<dots> \<le> length s" using t by (rule strip_prefix_length)
  finally show ?thesis .
qed

text \<open>
  The \<^verbatim>\<open>while ((match = regex.exec(targetPath)) !== null)\<close> loop of \<^verbatim>\<open>parsePath\<close>: the
  global regular expression finds the leftmost match, then searches on after it. A step
  \<^verbatim>\<open>{ kind: "children", index }\<close> is its index.
\<close>

function parsePath :: "string \<Rightarrow> nat list" where
  "parsePath [] = []"
| "parsePath (c # cs) =
     (case match_step (c # cs) of
        Some (n, rest) \<Rightarrow> n # parsePath rest
      | None \<Rightarrow> parsePath cs)"
  by pat_completeness auto
termination
  by (relation "measure length") (auto dest: match_step_shorter)

subsection \<open>navigateToTarget\<close>

definition quoted :: "string \<Rightarrow> string" where
  "quoted s = ''\"'' @ s @ ''\"''"

definition text_node_msg :: "nat \<Rightarrow> nat \<Rightarrow> string" where
  "text_node_msg i k =
     ''Path step '' @ show_nat i @ '' at index '' @ show_nat k @
     '' points to a text node, not a component''"

definition out_of_bounds_msg :: "nat \<Rightarrow> nat \<Rightarrow> nat \<Rightarrow> string" where
  "out_of_bounds_msg i k n =
     ''Path step '' @ show_nat i @ '' at index '' @ show_nat k @
     '' is out of bounds ('' @ show_nat n @ '' children)''"

text \<open>\<^verbatim>\<open>xs[k]\<close> of a JavaScript array: \<^verbatim>\<open>undefined\<close> outside the array.\<close>

definition at_index :: "child list \<Rightarrow> nat \<Rightarrow> child" where
  "at_index xs k = (if k < length xs then xs ! k else Undefined)"

text \<open>
  The loop over all steps but the last. It starts at the wrapper
  \<^verbatim>\<open>{ children: ast.components }\<close> and returns the \<^verbatim>\<open>children\<close> array of the node it
  ends in; \<open>i\<close> is the loop counter.
\<close>

fun descend :: "nat list \<Rightarrow> nat \<Rightarrow> child list \<Rightarrow> string + child list" where
  "descend [] i cur = Inr cur"
| "descend (k # ks) i cur =
     (case at_index cur k of
        Text s \<Rightarrow> Inl (text_node_msg i k)
      | Undefined \<Rightarrow> Inl (out_of_bounds_msg i k (length cur))
      | Node t p cs \<Rightarrow> descend ks (Suc i) cs)"

text \<open>
  The reference \<^verbatim>\<open>parent\<close> that \<^verbatim>\<open>navigateToTarget\<close> returns is the address of the parent
  (the steps that lead to it), with the array found there. \<^verbatim>\<open>store_children\<close> is
  a write through that reference: the tree with the array at the address replaced.
\<close>

record target =
  parent :: "nat list"
  parent_children :: "child list"
  index :: nat

definition navigateToTarget :: "UIAST \<Rightarrow> string \<Rightarrow> string + target" where
  "navigateToTarget a tp =
     (let steps = parsePath tp in
      if steps = [] then Inl (''Invalid target path: '' @ quoted tp)
      else (case descend (butlast steps) 0 (components a) of
              Inl e \<Rightarrow> Inl e
            | Inr cs \<Rightarrow> Inr \<lparr>parent = butlast steps, parent_children = cs, index = last steps\<rparr>))"

fun store_children :: "nat list \<Rightarrow> child list \<Rightarrow> child list \<Rightarrow> child list" where
  "store_children [] new cur = new"
| "store_children (k # ks) new cur =
     (case at_index cur k of
        Node t p cs \<Rightarrow> cur[k := Node t p (store_children ks new cs)]
      | _ \<Rightarrow> cur)"

subsection \<open>addNode, updateNode, removeNode\<close>

definition is_text :: "child \<Rightarrow> bool" where
  "is_text c = (case c of Text s \<Rightarrow> True | _ \<Rightarrow> False)"

text \<open>\<^verbatim>\<open>component!\<close>: the value itself, \<^verbatim>\<open>undefined\<close> when the patch has none.\<close>

definition component_value :: "child option \<Rightarrow> child" where
  "component_value c = (case c of None \<Rightarrow> Undefined | Some n \<Rightarrow> n)"

definition truthy :: "child \<Rightarrow> bool" where
  "truthy c = (case c of Text s \<Rightarrow> s \<noteq> [] | Undefined \<Rightarrow> False | Node t p cs \<Rightarrow> True)"

text \<open>\<^verbatim>\<open>xs.splice(i, 0, c)\<close> for \<open>i \<le> length xs\<close>.\<close>

definition splice_in :: "nat \<Rightarrow> child \<Rightarrow> child list \<Rightarrow> child list" where
  "splice_in i c xs = take i xs @ [c] @ drop i xs"

definition splice_out :: "nat \<Rightarrow> child list \<Rightarrow> child list" where
  "splice_out i xs = take i xs @ drop (Suc i) xs"

definition addNode :: "UIAST \<Rightarrow> string \<Rightarrow> child \<Rightarrow> string + UIAST" where
  "addNode a tp c =
     (if parsePath tp = [] then Inr (a\<lparr>components := components a @ [c]\<rparr>)
      else (case navigateToTarget a tp of
              Inl e \<Rightarrow> Inl e
            | Inr t \<Rightarrow>
                (let cs = parent_children t;
                     cs' = (if index t \<ge> length cs then cs @ [c]
                            else splice_in (index t + 1) c cs)
                 in Inr (a\<lparr>components := filter (\<lambda>x. \<not> is_text x) cs'\<rparr>))))"

text \<open>\<^verbatim>\<open>{ ...existing.props, ...props }\<close>: a key already there keeps its place.\<close>

definition set_prop :: "string \<Rightarrow> json \<Rightarrow> props \<Rightarrow> props" where
  "set_prop k v m =
     (if k \<in> fst ` set m then map (\<lambda>(k', v'). if k' = k then (k', v) else (k', v')) m
      else m @ [(k, v)])"

definition spread :: "props \<Rightarrow> props \<Rightarrow> props" where
  "spread m ps = foldl (\<lambda>acc (k, v). set_prop k v acc) m ps"

definition updateNode :: "UIAST \<Rightarrow> string \<Rightarrow> child option \<Rightarrow> props option \<Rightarrow> string + UIAST" where
  "updateNode a tp c ps =
     (case navigateToTarget a tp of
        Inl e \<Rightarrow> Inl e
      | Inr t \<Rightarrow>
          (case at_index (parent_children t) (index t) of
             Text s \<Rightarrow> Inl (''Cannot update a text node at '' @ quoted tp)
           | Undefined \<Rightarrow> Inl (''No node at '' @ quoted tp)
           | Node ty p cs \<Rightarrow>
               if truthy (component_value c) then
                 Inr (a\<lparr>components := store_children (parent t)
                        ((parent_children t)[index t := component_value c]) (components a)\<rparr>)
               else (case ps of
                       Some q \<Rightarrow>
                         Inr (a\<lparr>components := store_children (parent t)
                                ((parent_children t)[index t := Node ty (spread p q) cs])
                                (components a)\<rparr>)
                     | None \<Rightarrow> Inr a)))"

definition removeNode :: "UIAST \<Rightarrow> string \<Rightarrow> string + UIAST" where
  "removeNode a tp =
     (case navigateToTarget a tp of
        Inl e \<Rightarrow> Inl e
      | Inr t \<Rightarrow>
          if index t \<ge> length (parent_children t) then
            Inl (''No node at index '' @ show_nat (index t) @ '' in '' @ quoted tp)
          else Inr (a\<lparr>components := store_children (parent t)
                      (splice_out (index t) (parent_children t)) (components a)\<rparr>))"

subsection \<open>applyPatches\<close>

definition applySinglePatch :: "UIAST \<Rightarrow> Patch \<Rightarrow> string + UIAST" where
  "applySinglePatch a p =
     (case action p of
        Add \<Rightarrow> addNode a (targetPath p) (component_value (component p))
      | Update \<Rightarrow> updateNode a (targetPath p) (component p) (pprops p)
      | Remove \<Rightarrow> removeNode a (targetPath p)
      | OtherAction s \<Rightarrow> Inl (''Unknown patch action: '' @ s))"

definition patch_error :: "Patch \<Rightarrow> string \<Rightarrow> string" where
  "patch_error p msg =
     ''Patch '' @ quoted (action_name (action p)) @ '' at '' @ quoted (targetPath p) @ '': '' @ msg"

text \<open>
  The \<^verbatim>\<open>for (const patch of patches)\<close> loop with its three variables: the working
  document, the number of patches applied and the error list.
\<close>

fun patch_loop :: "Patch list \<Rightarrow> UIAST \<Rightarrow> nat \<Rightarrow> string list \<Rightarrow> UIAST \<times> nat \<times> string list" where
  "patch_loop [] cur n errs = (cur, n, errs)"
| "patch_loop (p # ps) cur n errs =
     (case applySinglePatch cur p of
        Inr cur' \<Rightarrow> patch_loop ps cur' (Suc n) errs
      | Inl msg \<Rightarrow> patch_loop ps cur n (errs @ [patch_error p msg]))"

definition applyPatches :: "UIAST \<Rightarrow> Patch list \<Rightarrow> PatchResult" where
  "applyPatches a ps =
     (case patch_loop ps a 0 [] of
        (cur, n, errs) \<Rightarrow> \<lparr>success = (errs = []), ast = cur, appliedPatches = n, errors = errs\<rparr>)"

text \<open>
  The value that a list of later entries gives to one entry: each later entry with the
  same key replaces it.
\<close>

fun override :: "props \<Rightarrow> string \<times> json \<Rightarrow> string \<times> json" where
  "override [] e = e"
| "override ((k, v) # ps) e = override ps (if fst e = k then (k, v) else e)"

subsection \<open>Example documents and patches\<close>

definition text_node :: "string \<Rightarrow> child" where
  "text_node s = Node ''Text'' [(''children'', JStr s)] []"

definition button_node :: child where
  "button_node = Node ''Button'' [(''variant'', JStr ''primary'')] [Text ''Click me'']"

definition card_doc :: UIAST where
  "card_doc = \<lparr>layout = LStack, theme = Light,
                components = [Node ''Card'' [] [text_node ''A'']]\<rparr>"

definition nested_add :: Patch where
  "nested_add = \<lparr>action = Add, targetPath = ''root.children[0].children[0]'',
                  component = Some button_node, pprops = None\<rparr>"

definition bare_update :: Patch where
  "bare_update = \<lparr>action = Update, targetPath = ''root.children[0]'',
                   component = None, pprops = None\<rparr>"

definition bare_add :: Patch where
  "bare_add = \<lparr>action = Add, targetPath = ''root'', component = None, pprops = None\<rparr>"

definition merge_update :: Patch where
  "merge_update = \<lparr>action = Update, targetPath = ''root.children[0].children[0]'',
                    component = None, pprops = Some [(''size'', JStr ''lg''), (''children'', JStr ''B'')]\<rparr>"

definition stray_add :: Patch where
  "stray_add = \<lparr>action = Add, targetPath = ''components/0'', component = Some button_node, pprops = None\<rparr>"

definition stray_update :: Patch where
  "stray_update = \<lparr>action = Update, targetPath = ''$.children[0]/props'', component = None,
                    pprops = Some [(''elevation'', JNum 2)]\<rparr>"

section \<open>Execution sandbox: static analysis\<close>

text \<open>
  The deny-list patterns are sequences of five kinds of element: the word boundary
  \<^verbatim>\<open>\b\<close>, a literal text, \<^verbatim>\<open>\s*\<close>, \<^verbatim>\<open>\s+\<close> and the class of the three quote
  characters. Strings are byte strings: \<^verbatim>\<open>\s\<close> is the ASCII white space, and a byte
  outside ASCII is not a word character.
\<close>

datatype rx = WordBoundary | Lit string | Spaces | Spaces1 | QuoteChar

type_synonym regex = "rx list"

definition backslash :: char where
  "backslash = CHR 0x5C"

definition is_space :: "char \<Rightarrow> bool" where
  "is_space c = (c \<in> set [CHR '' '', CHR 0x09, CHR 0x0A, CHR 0x0B, CHR 0x0C, CHR 0x0D])"

definition between :: "char \<Rightarrow> char \<Rightarrow> char \<Rightarrow> bool" where
  "between lo hi c = (lo \<le> c \<and> c \<le> hi)"

text \<open>\<^verbatim>\<open>\w\<close>: a letter, a digit or the underscore.\<close>

definition is_word :: "char \<Rightarrow> bool" where
  "is_word c =
     (between (CHR ''a'') (CHR ''z'') c \<or> between (CHR ''A'') (CHR ''Z'') c \<or> is_digit c \<or>
      c = CHR ''_'')"

definition is_quote :: "char \<Rightarrow> bool" where
  "is_quote c = (c = CHR 0x27 \<or> c = CHR 0x22 \<or> c = CHR 0x60)"

text \<open>\<^verbatim>\<open>\b\<close> between the character before the position and the text after it.\<close>

definition word_before :: "char option \<Rightarrow> bool" where
  "word_before prev = (case prev of None \<Rightarrow> False | Some c \<Rightarrow> is_word c)"

definition word_after :: "string \<Rightarrow> bool" where
  "word_after s = (case s of [] \<Rightarrow> False | c # cs \<Rightarrow> is_word c)"

definition at_boundary :: "char option \<Rightarrow> string \<Rightarrow> bool" where
  "at_boundary prev s = (word_before prev \<noteq> word_after s)"

definition last_of :: "string \<Rightarrow> char option \<Rightarrow> char option" where
  "last_of l prev = (if l = [] then prev else Some (last l))"

text \<open>Whether the pattern matches at this position; \<open>prev\<close> is the character before it.\<close>

function match_here :: "regex \<Rightarrow> char option \<Rightarrow> string \<Rightarrow> bool" where
  "match_here [] prev s = True"
| "match_here (WordBoundary # rs) prev s = (at_boundary prev s \<and> match_here rs prev s)"
| "match_here (Lit l # rs) prev s =
     (case strip_prefix l s of None \<Rightarrow> False | Some r \<Rightarrow> match_here rs (last_of l prev) r)"
| "match_here (Spaces # rs) prev [] = match_here rs prev []"
| "match_here (Spaces # rs) prev (c # cs) =
     ((is_space c \<and> match_here (Spaces # rs) (Some c) cs) \<or> match_here rs prev (c # cs))"
| "match_here (Spaces1 # rs) prev [] = False"
| "match_here (Spaces1 # rs) prev (c # cs) = (is_space c \<and> match_here (Spaces # rs) (Some c) cs)"
| "match_here (QuoteChar # rs) prev [] = False"
| "match_here (QuoteChar # rs) prev (c # cs) = (is_quote c \<and> match_here rs (Some c) cs)"
  by pat_completeness auto
termination
  by (relation "measure (\<lambda>(rs, prev, s). length rs + length s)")
     (auto dest: strip_prefix_length)

text \<open>\<^verbatim>\<open>pattern.test(code)\<close> after \<^verbatim>\<open>pattern.lastIndex = 0\<close>: a match at some position.\<close>

fun search :: "regex \<Rightarrow> char option \<Rightarrow> string \<Rightarrow> bool" where
  "search r prev [] = match_here r prev []"
| "search r prev (c # cs) = (match_here r prev (c # cs) \<or> search r (Some c) cs)"

definition test :: "regex \<Rightarrow> string \<Rightarrow> bool" where
  "test r src = search r None src"

text \<open>\<^verbatim>\<open>pattern.source\<close>: the text of the pattern between its slashes.\<close>

definition escape_char :: "char \<Rightarrow> string" where
  "escape_char c = (if c \<in> set ''()[].'' then [backslash, c] else [c])"

fun rx_source :: "rx \<Rightarrow> string" where
  "rx_source WordBoundary = [backslash, CHR ''b'']"
| "rx_source (Lit l) = concat (map escape_char l)"
| "rx_source Spaces = [backslash, CHR ''s'', CHR ''*'']"
| "rx_source Spaces1 = [backslash, CHR ''s'', CHR ''+'']"
| "rx_source QuoteChar = [CHR ''['', CHR 0x27, CHR 0x22, CHR 0x60, CHR '']'']"

definition source :: "regex \<Rightarrow> string" where
  "source r = concat (map rx_source r)"

definition DANGEROUS_PATTERNS :: "regex list" where
  "DANGEROUS_PATTERNS =
    [[WordBoundary, Lit ''eval'', Spaces, Lit ''(''],
     [WordBoundary, Lit ''new'', Spaces1, Lit ''Function'', Spaces, Lit ''(''],
     [WordBoundary, Lit ''setTimeout'', Spaces, Lit ''('', Spaces, QuoteChar],
     [WordBoundary, Lit ''setInterval'', Spaces, Lit ''('', Spaces, QuoteChar],
     [WordBoundary, Lit ''document'', Spaces, Lit ''.''],
     [WordBoundary, Lit ''window'', Spaces, Lit ''.''],
     [WordBoundary, Lit ''globalThis'', Spaces, Lit ''.''],
     [WordBoundary, Lit ''process'', Spaces, Lit ''.''],
     [WordBoundary, Lit ''require'', Spaces, Lit ''(''],
     [WordBoundary, Lit ''import'', Spaces, Lit ''(''],
     [WordBoundary, Lit ''__proto__'', WordBoundary],
     [WordBoundary, Lit ''constructor'', Spaces, Lit ''[''],
     [WordBoundary, Lit ''Object.getPrototypeOf''],
     [WordBoundary, Lit ''Reflect'', WordBoundary],
     [WordBoundary, Lit ''Proxy'', WordBoundary]]"

definition LOOP_PATTERNS :: "regex list" where
  "LOOP_PATTERNS =
    [[Lit ''while'', Spaces, Lit ''('', Spaces, Lit ''true'', Spaces, Lit '')''],
     [Lit ''while'', Spaces, Lit ''('', Spaces, Lit ''1'', Spaces, Lit '')''],
     [Lit ''for'', Spaces, Lit ''('', Spaces, Lit '';'', Spaces, Lit '';'', Spaces, Lit '')''],
     [Lit ''for'', Spaces, Lit ''('', Spaces, Lit '';;'', Spaces, Lit '')'']]"

record analysis =
  safe :: bool
  issues :: "string list"

text \<open>One \<^verbatim>\<open>for (const pattern of ...)\<close> loop: the issues pushed, in order.\<close>

fun scan_patterns :: "string \<Rightarrow> regex list \<Rightarrow> string \<Rightarrow> string list \<Rightarrow> string list" where
  "scan_patterns label [] src acc = acc"
| "scan_patterns label (p # ps) src acc =
     scan_patterns label ps src (if test p src then acc @ [label @ source p] else acc)"

definition analyzeCode :: "string \<Rightarrow> analysis" where
  "analyzeCode src =
     (let found = scan_patterns ''Blocked pattern detected: '' DANGEROUS_PATTERNS src [];
          found' = scan_patterns ''Potential infinite loop: '' LOOP_PATTERNS src found
      in \<lparr>safe = (found' = []), issues = found'\<rparr>)"

subsection \<open>executeSandboxed\<close>

record SandboxOptions =
  timeoutMs :: "int option"
  maxCodeLength :: "int option"

record 'v SandboxResult =
  sb_success :: bool
  sb_result :: "'v option"
  sb_error :: "string option"
  executionTimeMs :: int

text \<open>\<^verbatim>\<open>issues.join("; ")\<close>\<close>

fun join :: "string \<Rightarrow> string list \<Rightarrow> string" where
  "join sep [] = []"
| "join sep [x] = x"
| "join sep (x # y # ys) = x @ sep @ join sep (y # ys)"

text \<open>
  The \<^verbatim>\<open>try\<close> block of \<^verbatim>\<open>executeSandboxed\<close> builds the scope, injects the loop guards,
  constructs the function with \<^verbatim>\<open>new Function\<close> and calls it. What running foreign code
  returns is not a matter of this theory: the block is the parameter \<open>run\<close>, from the code,
  the caller's scope and the timeout to the outcome (the message of what was thrown, or the
  value returned) and the time it took.
\<close>

type_synonym 'v runner = "string \<Rightarrow> (string \<times> 'v) list \<Rightarrow> int \<Rightarrow> (string + 'v) \<times> int"

definition executeSandboxed ::
  "'v runner \<Rightarrow> string \<Rightarrow> (string \<times> 'v) list \<Rightarrow> SandboxOptions \<Rightarrow> 'v SandboxResult" where
  "executeSandboxed run src scope options =
     (let timeout = (case timeoutMs options of None \<Rightarrow> 5000 | Some t \<Rightarrow> t);
          maxlen = (case maxCodeLength options of None \<Rightarrow> 100000 | Some m \<Rightarrow> m)
      in if int (length src) > maxlen then
           \<lparr>sb_success = False, sb_result = None,
            sb_error = Some (''Code exceeds maximum length ('' @ show_int maxlen @ '' chars)''),
            executionTimeMs = 0\<rparr>
         else if \<not> safe (analyzeCode src) then
           \<lparr>sb_success = False, sb_result = None,
            sb_error = Some (''Security violation: '' @ join ''; '' (issues (analyzeCode src))),
            executionTimeMs = 0\<rparr>
         else (case run src scope timeout of
                 (Inr v, elapsed) \<Rightarrow>
                   \<lparr>sb_success = True, sb_result = Some v, sb_error = None,
                    executionTimeMs = elapsed\<rparr>
               | (Inl msg, elapsed) \<Rightarrow>
                   \<lparr>sb_success = False, sb_result = None, sb_error = Some msg,
                    executionTimeMs = elapsed\<rparr>))"

subsection \<open>Example input\<close>

definition eval_call :: string where
  "eval_call = ''eval(userInput)''"

text \<open>A runner that returns the text it is given after one millisecond.\<close>

definition echo_runner :: "string runner" where
  "echo_runner src scope timeout = (Inr src, 1)"

section \<open>Component registry and schemas\<close>

text \<open>
  The schemas are built with zod, a validation library that the repository imports. The
  model covers what the registry uses of zod 3: optional fields with or without a
  default, string enumerations, unions of number literals, booleans, strings, the chart
  data array, and objects that are strict (the property schemas) or strip unknown keys
  (the node and document schemas). An issue has the code, the path and the keys that the
  validator reads; its message is the text of the library's default error map.
\<close>

datatype zcode = InvalidType | InvalidEnumValue | InvalidUnion | UnrecognizedKeys | Custom

record zissue =
  icode :: zcode
  path :: "string list"
  message :: string
  keys :: "string list"

datatype ztype =
    ZEnum "string list"
  | ZLiterals "int list"
  | ZBoolean
  | ZString
  | ZChartData

text \<open>A field of a property schema: its type and its default, if it has one.\<close>

type_synonym zshape = "(string \<times> ztype \<times> json option) list"

definition single_quoted :: "string \<Rightarrow> string" where
  "single_quoted s = [CHR 0x27] @ s @ [CHR 0x27]"

definition type_name :: "json \<Rightarrow> string" where
  "type_name v =
     (case v of
        JUndefined \<Rightarrow> ''undefined''
      | JNull \<Rightarrow> ''null''
      | JBool b \<Rightarrow> ''boolean''
      | JNum n \<Rightarrow> ''number''
      | JStr s \<Rightarrow> ''string''
      | JArr xs \<Rightarrow> ''array''
      | JObj kvs \<Rightarrow> ''object'')"

definition invalid_type :: "string list \<Rightarrow> string \<Rightarrow> json \<Rightarrow> zissue" where
  "invalid_type pth expected v =
     \<lparr>icode = InvalidType, path = pth,
      message = (if v = JUndefined then ''Required''
                 else ''Expected '' @ expected @ '', received '' @ type_name v),
      keys = []\<rparr>"

definition field :: "(string \<times> json) list \<Rightarrow> string \<Rightarrow> json" where
  "field kvs k = (case map_of kvs k of None \<Rightarrow> JUndefined | Some v \<Rightarrow> v)"

text \<open>One element of the chart data: \<^verbatim>\<open>z.object({ label: z.string(), value: z.number() })\<close>.\<close>

definition parse_point :: "string list \<Rightarrow> json \<Rightarrow> zissue list \<times> json" where
  "parse_point pth v =
     (case v of
        JObj kvs \<Rightarrow>
          (let l = field kvs ''label''; n = field kvs ''value'' in
           ((case l of JStr s \<Rightarrow> [] | _ \<Rightarrow> [invalid_type (pth @ [''label'']) ''string'' l]) @
            (case n of JNum i \<Rightarrow> [] | _ \<Rightarrow> [invalid_type (pth @ [''value'']) ''number'' n]),
            JObj [(''label'', l), (''value'', n)]))
      | _ \<Rightarrow> ([invalid_type pth ''object'' v], v))"

fun parse_points :: "string list \<Rightarrow> nat \<Rightarrow> json list \<Rightarrow> zissue list \<times> json list" where
  "parse_points pth i [] = ([], [])"
| "parse_points pth i (v # vs) =
     (case parse_point (pth @ [show_nat i]) v of
        (is1, out1) \<Rightarrow>
          (case parse_points pth (Suc i) vs of (is2, outs) \<Rightarrow> (is1 @ is2, out1 # outs)))"

definition enum_text :: "string list \<Rightarrow> string" where
  "enum_text vs = join '' | '' (map single_quoted vs)"

text \<open>A value that is there, against the type of its field: the issues and the output.\<close>

definition parse_type :: "ztype \<Rightarrow> string list \<Rightarrow> json \<Rightarrow> zissue list \<times> json" where
  "parse_type ty pth v =
     (case ty of
        ZEnum vs \<Rightarrow>
          (case v of
             JStr s \<Rightarrow>
               if s \<in> set vs then ([], v)
               else ([\<lparr>icode = InvalidEnumValue, path = pth,
                       message = ''Invalid enum value. Expected '' @ enum_text vs @
                                 '', received '' @ single_quoted s,
                       keys = []\<rparr>], v)
           | _ \<Rightarrow> ([invalid_type pth (enum_text vs) v], v))
      | ZLiterals ns \<Rightarrow>
          (case v of
             JNum n \<Rightarrow>
               if n \<in> set ns then ([], v)
               else ([\<lparr>icode = InvalidUnion, path = pth, message = ''Invalid input'', keys = []\<rparr>], v)
           | _ \<Rightarrow> ([\<lparr>icode = InvalidUnion, path = pth, message = ''Invalid input'', keys = []\<rparr>], v))
      | ZBoolean \<Rightarrow>
          (case v of JBool b \<Rightarrow> ([], v) | _ \<Rightarrow> ([invalid_type pth ''boolean'' v], v))
      | ZString \<Rightarrow>
          (case v of JStr s \<Rightarrow> ([], v) | _ \<Rightarrow> ([invalid_type pth ''string'' v], v))
      | ZChartData \<Rightarrow>
          (case v of
             JArr xs \<Rightarrow> (case parse_points pth 0 xs of (iss, outs) \<Rightarrow> (iss, JArr outs))
           | _ \<Rightarrow> ([invalid_type pth ''array'' v], v)))"

text \<open>
  \<^verbatim>\<open>.optional()\<close> and \<^verbatim>\<open>.optional().default(d)\<close>: an absent value passes, as itself or
  as the default.
\<close>

definition parse_field :: "ztype \<Rightarrow> json option \<Rightarrow> string list \<Rightarrow> json \<Rightarrow> zissue list \<times> json" where
  "parse_field ty dflt pth v =
     (if v = JUndefined then
        (case dflt of None \<Rightarrow> ([], JUndefined) | Some d \<Rightarrow> parse_type ty pth d)
      else parse_type ty pth v)"

text \<open>
  The fields of a strict object in the order of the schema. An output entry is set when
  its value is defined or the input has the key.
\<close>

fun parse_fields :: "zshape \<Rightarrow> props \<Rightarrow> zissue list \<times> props" where
  "parse_fields [] input = ([], [])"
| "parse_fields ((k, ty, dflt) # sh) input =
     (case parse_field ty dflt [k] (field input k) of
        (is1, out) \<Rightarrow>
          (case parse_fields sh input of
             (is2, outs) \<Rightarrow>
               (is1 @ is2,
                (if out \<noteq> JUndefined \<or> k \<in> fst ` set input then [(k, out)] else []) @ outs)))"

definition unrecognized :: "string list \<Rightarrow> zissue" where
  "unrecognized extra =
     \<lparr>icode = UnrecognizedKeys, path = [],
      message = ''Unrecognized key(s) in object: '' @ join '', '' (map single_quoted extra),
      keys = extra\<rparr>"

text \<open>\<^verbatim>\<open>schema.safeParse(props)\<close> of a strict object schema: the issues, and the data.\<close>

definition safeParse :: "zshape \<Rightarrow> props \<Rightarrow> zissue list \<times> props" where
  "safeParse sh input =
     (case parse_fields sh input of
        (iss, out) \<Rightarrow>
          (let extra = filter (\<lambda>k. k \<notin> fst ` set sh) (map fst input)
           in (iss @ (if extra = [] then [] else [unrecognized extra]), out)))"

subsection \<open>The registry\<close>

definition opt :: "string \<Rightarrow> ztype \<Rightarrow> string \<times> ztype \<times> json option" where
  "opt k ty = (k, ty, None)"

definition dflt :: "string \<Rightarrow> ztype \<Rightarrow> json \<Rightarrow> string \<times> ztype \<times> json option" where
  "dflt k ty d = (k, ty, Some d)"

definition VariantEnum :: ztype where
  "VariantEnum = ZEnum [''primary'', ''secondary'', ''ghost'']"

definition SizeEnum :: ztype where
  "SizeEnum = ZEnum [''sm'', ''md'', ''lg'']"

definition ElevationEnum :: ztype where
  "ElevationEnum = ZLiterals [0, 1, 2, 3]"

definition AnimationEnum :: ztype where
  "AnimationEnum = ZEnum [''none'', ''fade'', ''slide'']"

definition ButtonPropsSchema :: zshape where
  "ButtonPropsSchema =
     [dflt ''variant'' (ZEnum [''primary'', ''secondary'', ''outline'', ''ghost'', ''destructive''])
        (JStr ''primary''),
      dflt ''size'' (ZEnum [''sm'', ''md'', ''lg'', ''icon'']) (JStr ''md''),
      dflt ''elevation'' ElevationEnum (JNum 0),
      dflt ''animation'' AnimationEnum (JStr ''none''),
      dflt ''isLoading'' ZBoolean (JBool False),
      opt ''onClick'' ZString,
      opt ''children'' ZString,
      opt ''disabled'' ZBoolean]"

definition InputPropsSchema :: zshape where
  "InputPropsSchema =
     [dflt ''type'' (ZEnum [''text'', ''password'', ''email'', ''number'']) (JStr ''text''),
      opt ''label'' ZString,
      opt ''error'' ZString,
      opt ''placeholder'' ZString,
      dflt ''elevation'' ElevationEnum (JNum 0),
      dflt ''animation'' AnimationEnum (JStr ''none'')]"

definition CardPropsSchema :: zshape where
  "CardPropsSchema =
     [dflt ''variant'' VariantEnum (JStr ''primary''),
      dflt ''elevation'' ElevationEnum (JNum 1),
      dflt ''animation'' AnimationEnum (JStr ''none'')]"

definition CardHeaderPropsSchema :: zshape where
  "CardHeaderPropsSchema = []"

definition CardTitlePropsSchema :: zshape where
  "CardTitlePropsSchema = [opt ''children'' ZString]"

definition CardDescriptionPropsSchema :: zshape where
  "CardDescriptionPropsSchema = [opt ''children'' ZString]"

definition CardContentPropsSchema :: zshape where
  "CardContentPropsSchema = []"

definition CardFooterPropsSchema :: zshape where
  "CardFooterPropsSchema = []"

definition BoxPropsSchema :: zshape where
  "BoxPropsSchema =
     [dflt ''padding'' (ZEnum [''none'', ''sm'', ''md'', ''lg'']) (JStr ''md''),
      dflt ''background'' (ZEnum [''default'', ''muted'', ''brand'']) (JStr ''default''),
      dflt ''elevation'' ElevationEnum (JNum 0),
      dflt ''animation'' AnimationEnum (JStr ''none'')]"

definition StackPropsSchema :: zshape where
  "StackPropsSchema =
     [dflt ''direction'' (ZEnum [''row'', ''column'']) (JStr ''column''),
      dflt ''gap'' (ZEnum [''none'', ''sm'', ''md'', ''lg'']) (JStr ''md''),
      dflt ''align'' (ZEnum [''start'', ''center'', ''end'', ''stretch'']) (JStr ''stretch''),
      dflt ''justify'' (ZEnum [''start'', ''center'', ''end'', ''between'']) (JStr ''start''),
      dflt ''elevation'' ElevationEnum (JNum 0),
      dflt ''animation'' AnimationEnum (JStr ''none'')]"

definition GridPropsSchema :: zshape where
  "GridPropsSchema =
     [dflt ''columns'' (ZLiterals [1, 2, 3, 4]) (JNum 1),
      dflt ''gap'' (ZEnum [''sm'', ''md'', ''lg'']) (JStr ''md''),
      dflt ''responsive'' ZBoolean (JBool True),
      dflt ''elevation'' ElevationEnum (JNum 0),
      dflt ''animation'' AnimationEnum (JStr ''none'')]"

definition ContainerPropsSchema :: zshape where
  "ContainerPropsSchema =
     [dflt ''elevation'' ElevationEnum (JNum 0),
      dflt ''animation'' AnimationEnum (JStr ''none'')]"

definition HeadingPropsSchema :: zshape where
  "HeadingPropsSchema =
     [dflt ''level'' (ZLiterals [1, 2, 3, 4]) (JNum 1),
      opt ''children'' ZString,
      dflt ''elevation'' ElevationEnum (JNum 0),
      dflt ''animation'' AnimationEnum (JStr ''none'')]"

definition TextPropsSchema :: zshape where
  "TextPropsSchema =
     [dflt ''size'' SizeEnum (JStr ''md''),
      dflt ''type'' (ZEnum [''default'', ''muted'']) (JStr ''default''),
      opt ''children'' ZString,
      dflt ''elevation'' ElevationEnum (JNum 0),
      dflt ''animation'' AnimationEnum (JStr ''none'')]"

definition ModalPropsSchema :: zshape where
  "ModalPropsSchema =
     [dflt ''isOpen'' ZBoolean (JBool False),
      opt ''onClose'' ZString,
      opt ''title'' ZString,
      dflt ''variant'' VariantEnum (JStr ''primary''),
      dflt ''elevation'' ElevationEnum (JNum 2),
      dflt ''animation'' AnimationEnum (JStr ''fade'')]"

definition NavbarPropsSchema :: zshape where
  "NavbarPropsSchema =
     [opt ''logo'' ZString,
      dflt ''variant'' VariantEnum (JStr ''primary''),
      dflt ''elevation'' ElevationEnum (JNum 1),
      dflt ''animation'' AnimationEnum (JStr ''none''),
      dflt ''hasDropdown'' ZBoolean (JBool False)]"

definition SidebarPropsSchema :: zshape where
  "SidebarPropsSchema =
     [dflt ''variant'' VariantEnum (JStr ''primary''),
      dflt ''elevation'' ElevationEnum (JNum 0),
      dflt ''animation'' AnimationEnum (JStr ''none''),
      dflt ''collapsible'' ZBoolean (JBool False),
      dflt ''defaultCollapsed'' ZBoolean (JBool False)]"

definition SidebarItemPropsSchema :: zshape where
  "SidebarItemPropsSchema =
     [dflt ''isActive'' ZBoolean (JBool False),
      opt ''icon'' ZString,
      opt ''children'' ZString]"

definition BarChartPropsSchema :: zshape where
  "BarChartPropsSchema =
     [opt ''title'' ZString,
      opt ''data'' ZChartData,
      dflt ''size'' SizeEnum (JStr ''md''),
      dflt ''variant'' VariantEnum (JStr ''primary''),
      dflt ''elevation'' ElevationEnum (JNum 0),
      dflt ''animation'' AnimationEnum (JStr ''fade'')]"

definition LineChartPropsSchema :: zshape where
  "LineChartPropsSchema =
     [opt ''title'' ZString,
      opt ''data'' ZChartData,
      dflt ''size'' SizeEnum (JStr ''md''),
      dflt ''variant'' VariantEnum (JStr ''primary''),
      dflt ''elevation'' ElevationEnum (JNum 0),
      dflt ''animation'' AnimationEnum (JStr ''fade'')]"

definition PieChartPropsSchema :: zshape where
  "PieChartPropsSchema =
     [opt ''title'' ZString,
      opt ''data'' ZChartData,
      dflt ''size'' SizeEnum (JStr ''md''),
      dflt ''variant'' VariantEnum (JStr ''primary''),
      dflt ''elevation'' ElevationEnum (JNum 0),
      dflt ''animation'' AnimationEnum (JStr ''fade'')]"

definition TablePropsSchema :: zshape where
  "TablePropsSchema =
     [dflt ''elevation'' ElevationEnum (JNum 0),
      dflt ''animation'' AnimationEnum (JStr ''none'')]"

definition TableHeaderPropsSchema :: zshape where
  "TableHeaderPropsSchema = []"

definition TableBodyPropsSchema :: zshape where
  "TableBodyPropsSchema = []"

definition TableRowPropsSchema :: zshape where
  "TableRowPropsSchema = []"

definition TableHeadPropsSchema :: zshape where
  "TableHeadPropsSchema = [opt ''children'' ZString]"

definition TableCellPropsSchema :: zshape where
  "TableCellPropsSchema = [opt ''children'' ZString]"

definition TableFooterPropsSchema :: zshape where
  "TableFooterPropsSchema = []"

definition TableCaptionPropsSchema :: zshape where
  "TableCaptionPropsSchema = [opt ''children'' ZString]"

definition COMPONENT_PROP_SCHEMAS :: "(string \<times> zshape) list" where
  "COMPONENT_PROP_SCHEMAS =
    [(''Button'', ButtonPropsSchema),
     (''Input'', InputPropsSchema),
     (''Card'', CardPropsSchema),
     (''CardHeader'', CardHeaderPropsSchema),
     (''CardTitle'', CardTitlePropsSchema),
     (''CardDescription'', CardDescriptionPropsSchema),
     (''CardContent'', CardContentPropsSchema),
     (''CardFooter'', CardFooterPropsSchema),
     (''Box'', BoxPropsSchema),
     (''Stack'', StackPropsSchema),
     (''Grid'', GridPropsSchema),
     (''Container'', ContainerPropsSchema),
     (''Heading'', HeadingPropsSchema),
     (''Text'', TextPropsSchema),
     (''Modal'', ModalPropsSchema),
     (''Navbar'', NavbarPropsSchema),
     (''Sidebar'', SidebarPropsSchema),
     (''SidebarItem'', SidebarItemPropsSchema),
     (''BarChart'', BarChartPropsSchema),
     (''LineChart'', LineChartPropsSchema),
     (''PieChart'', PieChartPropsSchema),
     (''Table'', TablePropsSchema),
     (''TableHeader'', TableHeaderPropsSchema),
     (''TableBody'', TableBodyPropsSchema),
     (''TableRow'', TableRowPropsSchema),
     (''TableHead'', TableHeadPropsSchema),
     (''TableCell'', TableCellPropsSchema),
     (''TableFooter'', TableFooterPropsSchema),
     (''TableCaption'', TableCaptionPropsSchema)]"

definition ALLOWED_COMPONENT_TYPES :: "string list" where
  "ALLOWED_COMPONENT_TYPES = map fst COMPONENT_PROP_SCHEMAS"

section \<open>The document schema\<close>

lemma map_of_size:
  "map_of kvs k = Some (v::json) \<Longrightarrow>
   size v < Suc (size_list (size_prod (\<lambda>_. 0) size) kvs)"
  by (induction kvs) (auto split: if_splits)

lemma field_children_size:
  "field kvs k = JArr xs \<Longrightarrow> x \<in> set xs \<Longrightarrow> size x < size (JObj kvs)"
proof -
  assume f: "field kvs k = JArr xs" and x: "x \<in> set xs"
  from f have "map_of kvs k = Some (JArr xs)"
    by (auto simp: field_def split: option.splits)
  then have "size (JArr xs) < Suc (size_list (size_prod (\<lambda>_. 0) size) kvs)"
    by (rule map_of_size)
  moreover have "size x < size (JArr xs)"
    using x by (induction xs) auto
  ultimately show ?thesis by simp
qed

text \<open>\<^verbatim>\<open>props: z.record(z.string(), z.unknown()).default({})\<close>\<close>

definition parse_props :: "json \<Rightarrow> props option" where
  "parse_props v = (case v of JUndefined \<Rightarrow> Some [] | JObj kvs \<Rightarrow> Some kvs | _ \<Rightarrow> None)"

text \<open>
  \<^verbatim>\<open>UIASTNodeSchema\<close>: the parsed node, or \<open>None\<close> when the value does not parse. An element
  of \<^verbatim>\<open>children\<close> is a node or a string; keys of a node object other than
  \<^verbatim>\<open>type\<close>, \<^verbatim>\<open>props\<close> and \<^verbatim>\<open>children\<close> are dropped.
\<close>

function parse_node :: "json \<Rightarrow> child option" where
  "parse_node (JObj kvs) =
     (case field kvs ''type'' of
        JStr t \<Rightarrow>
          if t \<in> set ALLOWED_COMPONENT_TYPES then
            (case parse_props (field kvs ''props'') of
               None \<Rightarrow> None
             | Some p \<Rightarrow>
                 (case field kvs ''children'' of
                    JUndefined \<Rightarrow> Some (Node t p [])
                  | JArr xs \<Rightarrow>
                      (case those (map (\<lambda>x. case x of JStr s \<Rightarrow> Some (Text s)
                                                     | _ \<Rightarrow> parse_node x) xs) of
                         None \<Rightarrow> None
                       | Some cs \<Rightarrow> Some (Node t p cs))
                  | _ \<Rightarrow> None))
          else None
      | _ \<Rightarrow> None)"
| "parse_node JUndefined = None"
| "parse_node JNull = None"
| "parse_node (JBool b) = None"
| "parse_node (JNum n) = None"
| "parse_node (JStr s) = None"
| "parse_node (JArr xs) = None"
  by pat_completeness auto
termination
  by (relation "measure size") (auto dest: field_children_size)

definition LayoutEnum :: "(string \<times> layout_kind) list" where
  "LayoutEnum =
     [(''Stack'', LStack), (''Grid'', LGrid), (''Sidebar'', LSidebar), (''Dashboard'', LDashboard),
      (''Form'', LForm), (''Hero'', LHero), (''Split'', LSplit), (''Full'', LFull)]"

definition ThemeEnum :: "(string \<times> theme_kind) list" where
  "ThemeEnum = [(''light'', Light), (''dark'', Dark)]"

definition parse_layout :: "json \<Rightarrow> layout_kind option" where
  "parse_layout v = (case v of JStr s \<Rightarrow> map_of LayoutEnum s | _ \<Rightarrow> None)"

text \<open>\<^verbatim>\<open>theme: ThemeEnum.optional().default("light")\<close>\<close>

definition parse_theme :: "json \<Rightarrow> theme_kind option" where
  "parse_theme v =
     (case v of JUndefined \<Rightarrow> Some Light | JStr s \<Rightarrow> map_of ThemeEnum s | _ \<Rightarrow> None)"

definition parse_doc :: "json \<Rightarrow> UIAST option" where
  "parse_doc j =
     (case j of
        JObj kvs \<Rightarrow>
          (case parse_layout (field kvs ''layout'') of
             None \<Rightarrow> None
           | Some l \<Rightarrow>
               (case parse_theme (field kvs ''theme'') of
                  None \<Rightarrow> None
                | Some t \<Rightarrow>
                    (case field kvs ''components'' of
                       JArr xs \<Rightarrow>
                         (case those (map parse_node xs) of
                            None \<Rightarrow> None
                          | Some cs \<Rightarrow> Some \<lparr>layout = l, theme = t, components = cs\<rparr>)
                     | _ \<Rightarrow> None)))
      | _ \<Rightarrow> None)"

subsection \<open>The issues of a failed parse\<close>

definition enum_issues :: "string list \<Rightarrow> string list \<Rightarrow> json \<Rightarrow> zissue list" where
  "enum_issues vs pth v = fst (parse_type (ZEnum vs) pth v)"

definition union_issue :: "string list \<Rightarrow> zissue" where
  "union_issue pth = \<lparr>icode = InvalidUnion, path = pth, message = ''Invalid input'', keys = []\<rparr>"

fun element_issues :: "string list \<Rightarrow> nat \<Rightarrow> json list \<Rightarrow> zissue list" where
  "element_issues pth i [] = []"
| "element_issues pth i (x # xs) =
     (case x of
        JStr s \<Rightarrow> []
      | _ \<Rightarrow> (case parse_node x of None \<Rightarrow> [union_issue (pth @ [show_nat i])] | Some c \<Rightarrow> [])) @
     element_issues pth (Suc i) xs"

definition unknown_type_message :: string where
  "unknown_type_message =
     ''Unknown component type. Allowed: '' @ join '', '' ALLOWED_COMPONENT_TYPES"

definition node_issues :: "string list \<Rightarrow> json \<Rightarrow> zissue list" where
  "node_issues pth j =
     (case j of
        JObj kvs \<Rightarrow>
          (case field kvs ''type'' of
             JStr t \<Rightarrow>
               if t \<in> set ALLOWED_COMPONENT_TYPES then []
               else [\<lparr>icode = Custom, path = pth @ [''type''],
                      message = unknown_type_message, keys = []\<rparr>]
           | v \<Rightarrow> [invalid_type (pth @ [''type'']) ''string'' v]) @
          (case field kvs ''props'' of
             JUndefined \<Rightarrow> []
           | JObj ps \<Rightarrow> []
           | v \<Rightarrow> [invalid_type (pth @ [''props'']) ''object'' v]) @
          (case field kvs ''children'' of
             JUndefined \<Rightarrow> []
           | JArr xs \<Rightarrow> element_issues (pth @ [''children'']) 0 xs
           | v \<Rightarrow> [invalid_type (pth @ [''children'']) ''array'' v])
      | _ \<Rightarrow> [invalid_type pth ''object'' j])"

fun nodes_issues :: "string list \<Rightarrow> nat \<Rightarrow> json list \<Rightarrow> zissue list" where
  "nodes_issues pth i [] = []"
| "nodes_issues pth i (x # xs) = node_issues (pth @ [show_nat i]) x @ nodes_issues pth (Suc i) xs"

definition doc_issues :: "json \<Rightarrow> zissue list" where
  "doc_issues j =
     (case j of
        JObj kvs \<Rightarrow>
          enum_issues (map fst LayoutEnum) [''layout''] (field kvs ''layout'') @
          (case field kvs ''theme'' of
             JUndefined \<Rightarrow> []
           | v \<Rightarrow> enum_issues (map fst ThemeEnum) [''theme''] v) @
          (case field kvs ''components'' of
             JArr xs \<Rightarrow> nodes_issues [''components''] 0 xs
           | v \<Rightarrow> [invalid_type [''components''] ''array'' v])
      | _ \<Rightarrow> [invalid_type [] ''object'' j])"

text \<open>\<^verbatim>\<open>UIASTSchema.safeParse(ast)\<close>: the issues, or the parsed document.\<close>

definition UIASTSchema_safeParse :: "json \<Rightarrow> zissue list + UIAST" where
  "UIASTSchema_safeParse j = (case parse_doc j of None \<Rightarrow> Inl (doc_issues j) | Some d \<Rightarrow> Inr d)"

section \<open>AST validator\<close>

record ASTValidationResult =
  valid :: bool
  val_errors :: "string list"
  val_warnings :: "string list"
  sanitizedAST :: "UIAST option"

text \<open>The three characters that stand before \<^verbatim>\<open>stripped\<close> in the warning, in UTF-8.\<close>

definition dash :: string where
  "dash = [CHR 0xC3, CHR 0xA2, CHR 0xE2, CHR 0x82, CHR 0xAC, CHR 0xE2, CHR 0x80, CHR 0x9D]"

text \<open>The loop over the issues of a node's properties: warnings and errors.\<close>

fun sort_issues ::
  "string \<Rightarrow> string \<Rightarrow> zissue list \<Rightarrow> string list \<times> string list \<Rightarrow> string list \<times> string list" where
  "sort_issues pth ty [] acc = acc"
| "sort_issues pth ty (i # is) (errs, warns) =
     sort_issues pth ty is
       (if icode i = UnrecognizedKeys then
          (errs, warns @ [pth @ ''.props: Unknown prop(s) '' @ join '', '' (keys i) @
                          '' on <'' @ ty @ ''> '' @ dash @ '' stripped''])
        else (errs @ [pth @ ''.props.'' @ join ''.'' (path i) @ '': '' @ message i], warns))"

text \<open>
  \<^verbatim>\<open>validateNode\<close> with the two lists it pushes to. The validator runs on the data of the
  parse, which holds no \<^verbatim>\<open>undefined\<close>; on the strings of a \<^verbatim>\<open>children\<close> array it is not
  called.
\<close>

fun validateNode :: "child \<Rightarrow> string \<Rightarrow> string list \<times> string list \<Rightarrow> string list \<times> string list"
  and validateChildren ::
    "child list \<Rightarrow> string \<Rightarrow> nat \<Rightarrow> string list \<times> string list \<Rightarrow> string list \<times> string list" where
  "validateNode (Node t p cs) pth (errs, warns) =
     (case map_of COMPONENT_PROP_SCHEMAS t of
        None \<Rightarrow> (errs @ [pth @ '': Unknown component '' @ quoted t], warns)
      | Some schema \<Rightarrow>
          validateChildren cs pth 0 (sort_issues pth t (fst (safeParse schema p)) (errs, warns)))"
| "validateNode (Text s) pth (errs, warns) =
     (errs @ [pth @ '': Unknown component '' @ quoted ''undefined''], warns)"
| "validateNode Undefined pth acc = acc"
| "validateChildren [] pth i acc = acc"
| "validateChildren (c # cs) pth i acc =
     validateChildren cs pth (Suc i)
       (case c of
          Text s \<Rightarrow> acc
        | _ \<Rightarrow> validateNode c (pth @ ''.children['' @ show_nat i @ '']'') acc)"

text \<open>\<^verbatim>\<open>parsed.components.forEach((comp, i) => validateNode(comp, `components[${i}]`))\<close>\<close>

fun validateComponents ::
  "child list \<Rightarrow> nat \<Rightarrow> string list \<times> string list \<Rightarrow> string list \<times> string list" where
  "validateComponents [] i acc = acc"
| "validateComponents (c # cs) i acc =
     validateComponents cs (Suc i) (validateNode c (''components['' @ show_nat i @ '']'') acc)"

definition top_error :: "zissue \<Rightarrow> string" where
  "top_error i = ''['' @ join ''.'' (path i) @ ''] '' @ message i"

definition validateUIAST :: "json \<Rightarrow> ASTValidationResult" where
  "validateUIAST a =
     (case UIASTSchema_safeParse a of
        Inl iss \<Rightarrow>
          \<lparr>valid = False, val_errors = map top_error iss, val_warnings = [], sanitizedAST = None\<rparr>
      | Inr parsed \<Rightarrow>
          (case validateComponents (components parsed) 0 ([], []) of
             (errs, warns) \<Rightarrow>
               \<lparr>valid = (errs = []), val_errors = errs, val_warnings = warns,
                sanitizedAST = Some parsed\<rparr>))"

text \<open>\<^verbatim>\<open>validateNodeProps\<close>\<close>

record NodePropsResult =
  np_valid :: bool
  sanitized :: props
  np_errors :: "string list"

definition validateNodeProps :: "string \<Rightarrow> props \<Rightarrow> NodePropsResult" where
  "validateNodeProps ty p =
     (case map_of COMPONENT_PROP_SCHEMAS ty of
        None \<Rightarrow> \<lparr>np_valid = False, sanitized = [], np_errors = [''Unknown component: '' @ ty]\<rparr>
      | Some schema \<Rightarrow>
          (case safeParse schema p of
             (iss, data) \<Rightarrow>
               if iss = [] then \<lparr>np_valid = True, sanitized = data, np_errors = []\<rparr>
               else \<lparr>np_valid = False, sanitized = p,
                     np_errors = map (\<lambda>i. join ''.'' (path i) @ '': '' @ message i) iss\<rparr>))"

definition jnode :: "string \<Rightarrow> props \<Rightarrow> json list \<Rightarrow> json" where
  "jnode t p cs = JObj [(''type'', JStr t), (''props'', JObj p), (''children'', JArr cs)]"

definition jdoc :: "json list \<Rightarrow> json" where
  "jdoc cs = JObj [(''layout'', JStr ''Stack''), (''theme'', JStr ''light''), (''components'', JArr cs)]"

subsection \<open>Nodes of a document and what the schemas say of them\<close>

text \<open>The component nodes of a tree, the node itself first.\<close>

fun all_nodes :: "child \<Rightarrow> child list" where
  "all_nodes (Node t p cs) = Node t p cs # concat (map all_nodes cs)"
| "all_nodes (Text s) = []"
| "all_nodes Undefined = []"

definition doc_nodes :: "UIAST \<Rightarrow> child list" where
  "doc_nodes d = concat (map all_nodes (components d))"

text \<open>The properties pass the strict schema of the type, after defaults.\<close>

definition props_satisfy_schema :: "string \<Rightarrow> props \<Rightarrow> bool" where
  "props_satisfy_schema ty p =
     (case map_of COMPONENT_PROP_SCHEMAS ty of
        None \<Rightarrow> False
      | Some schema \<Rightarrow> fst (safeParse schema p) = [])"

text \<open>The same, but for unrecognized keys.\<close>

definition props_satisfy_but_for_keys :: "string \<Rightarrow> props \<Rightarrow> bool" where
  "props_satisfy_but_for_keys ty p =
     (case map_of COMPONENT_PROP_SCHEMAS ty of
        None \<Rightarrow> False
      | Some schema \<Rightarrow> filter (\<lambda>i. icode i \<noteq> UnrecognizedKeys) (fst (safeParse schema p)) = [])"

definition node_passes :: "child \<Rightarrow> bool" where
  "node_passes n =
     (case n of
        Node t p cs \<Rightarrow> t \<in> set ALLOWED_COMPONENT_TYPES \<and> props_satisfy_but_for_keys t p
      | _ \<Rightarrow> False)"

definition is_node :: "child \<Rightarrow> bool" where
  "is_node c = (case c of Node t p cs \<Rightarrow> True | _ \<Rightarrow> False)"

text \<open>A document whose only node carries a key that its schema does not declare.\<close>

definition extra_key_doc :: json where
  "extra_key_doc =
     jdoc [jnode ''Button'' [(''variant'', JStr ''primary''), (''foo'', JStr ''bar'')]
             [JStr ''Click me'']]"

section \<open>Code generator\<close>

definition IMPORT_MAP :: "(string \<times> string) list" where
  "IMPORT_MAP =
    [(''Button'', ''@/components/ui-lib/Button''),
     (''Input'', ''@/components/ui-lib/Input''),
     (''Card'', ''@/components/ui-lib/Card''),
     (''CardHeader'', ''@/components/ui-lib/Card''),
     (''CardTitle'', ''@/components/ui-lib/Card''),
     (''CardDescription'', ''@/components/ui-lib/Card''),
     (''CardContent'', ''@/components/ui-lib/Card''),
     (''CardFooter'', ''@/components/ui-lib/Card''),
     (''Box'', ''@/components/ui-lib/Layouts''),
     (''Stack'', ''@/components/ui-lib/Layouts''),
     (''Grid'', ''@/components/ui-lib/Layouts''),
     (''Container'', ''@/components/ui-lib/Layouts''),
     (''Heading'', ''@/components/ui-lib/Typography''),
     (''Text'', ''@/components/ui-lib/Typography''),
     (''Table'', ''@/components/ui-lib/Table''),
     (''TableHeader'', ''@/components/ui-lib/Table''),
     (''TableBody'', ''@/components/ui-lib/Table''),
     (''TableRow'', ''@/components/ui-lib/Table''),
     (''TableHead'', ''@/components/ui-lib/Table''),
     (''TableCell'', ''@/components/ui-lib/Table''),
     (''TableFooter'', ''@/components/ui-lib/Table''),
     (''TableCaption'', ''@/components/ui-lib/Table''),
     (''Modal'', ''@/components/ui-lib/Modal''),
     (''Navbar'', ''@/components/ui-lib/Navbar''),
     (''Sidebar'', ''@/components/ui-lib/Sidebar''),
     (''SidebarItem'', ''@/components/ui-lib/Sidebar''),
     (''BarChart'', ''@/components/ui-lib/Chart''),
     (''LineChart'', ''@/components/ui-lib/Chart''),
     (''PieChart'', ''@/components/ui-lib/Chart'')]"

definition HANDLER_PROPS :: "string list" where
  "HANDLER_PROPS = [''onClick'', ''onClose'', ''onChange'']"

definition RAW_VALUE_PROPS :: "string list" where
  "RAW_VALUE_PROPS =
     [''isLoading'', ''isOpen'', ''isActive'', ''disabled'', ''columns'', ''level'', ''elevation'',
      ''collapsible'', ''defaultCollapsed'', ''hasDropdown'', ''responsive'']"

definition ICON_CONFLICTS :: "(string \<times> string) list" where
  "ICON_CONFLICTS =
     [(''BarChart'', ''BarChartIcon''), (''Table'', ''TableIcon''), (''Card'', ''CardIcon''),
      (''Input'', ''InputIcon'')]"

record GeneratorResult =
  code :: string
  gen_errors :: "string list"
  gen_warnings :: "string list"
  usedComponents :: "string list"
  usedIcons :: "string list"

text \<open>
  What \<^verbatim>\<open>renderNode\<close> writes to while it runs: the two message lists and the two sets, a
  set being the list of its elements in insertion order.
\<close>

record gen_state =
  st_errors :: "string list"
  st_warnings :: "string list"
  st_components :: "string list"
  st_icons :: "string list"

definition set_add :: "string \<Rightarrow> string list \<Rightarrow> string list" where
  "set_add x xs = (if x \<in> set xs then xs else xs @ [x])"

text \<open>Reading a property of \<^verbatim>\<open>undefined\<close> throws.\<close>

datatype gen_error = TypeError

subsection \<open>JavaScript conversions\<close>

definition newline :: string where
  "newline = [CHR 0x0A]"

definition js_truthy :: "json \<Rightarrow> bool" where
  "js_truthy v =
     (case v of
        JUndefined \<Rightarrow> False
      | JNull \<Rightarrow> False
      | JBool b \<Rightarrow> b
      | JNum n \<Rightarrow> n \<noteq> 0
      | JStr s \<Rightarrow> s \<noteq> []
      | JArr xs \<Rightarrow> True
      | JObj kvs \<Rightarrow> True)"

definition hex_digit :: "nat \<Rightarrow> char" where
  "hex_digit d = (if d < 10 then char_of (48 + d) else char_of (87 + d))"

text \<open>One character of a string inside \<^verbatim>\<open>JSON.stringify\<close>.\<close>

definition json_char :: "char \<Rightarrow> string" where
  "json_char c =
     (if c = CHR 0x22 then [backslash, CHR 0x22]
      else if c = backslash then [backslash, backslash]
      else if c = CHR 0x08 then [backslash, CHR ''b'']
      else if c = CHR 0x09 then [backslash, CHR ''t'']
      else if c = CHR 0x0A then [backslash, CHR ''n'']
      else if c = CHR 0x0C then [backslash, CHR ''f'']
      else if c = CHR 0x0D then [backslash, CHR ''r'']
      else if (of_char c :: nat) < 32 then
        [backslash, CHR ''u'', CHR ''0'', CHR ''0'',
         hex_digit (of_char c div 16), hex_digit (of_char c mod 16)]
      else [c])"

definition json_quote :: "string \<Rightarrow> string" where
  "json_quote s = [CHR 0x22] @ concat (map json_char s) @ [CHR 0x22]"

text \<open>
  \<^verbatim>\<open>JSON.stringify\<close> of a value that is not \<^verbatim>\<open>undefined\<close>: in an array \<^verbatim>\<open>undefined\<close>
  is written \<^verbatim>\<open>null\<close>, in an object the entry is left out.
\<close>

fun json_text :: "json \<Rightarrow> string" where
  "json_text JUndefined = ''null''"
| "json_text JNull = ''null''"
| "json_text (JBool b) = (if b then ''true'' else ''false'')"
| "json_text (JNum n) = show_int n"
| "json_text (JStr s) = json_quote s"
| "json_text (JArr xs) = ''['' @ join '','' (map json_text xs) @ '']''"
| "json_text (JObj kvs) =
     ''{'' @ join '','' (map (\<lambda>kv. json_quote (fst kv) @ '':'' @ json_text (snd kv))
                          (filter (\<lambda>kv. snd kv \<noteq> JUndefined) kvs)) @ ''}''"

text \<open>\<^verbatim>\<open>${JSON.stringify(value)}\<close> in a template.\<close>

definition stringify :: "json \<Rightarrow> string" where
  "stringify v = (if v = JUndefined then ''undefined'' else json_text v)"

text \<open>The property key that a value used as an index stands for (\<^verbatim>\<open>ToString\<close>).\<close>

fun to_string :: "json \<Rightarrow> string" where
  "to_string JUndefined = ''undefined''"
| "to_string JNull = ''null''"
| "to_string (JBool b) = (if b then ''true'' else ''false'')"
| "to_string (JNum n) = show_int n"
| "to_string (JStr s) = s"
| "to_string (JArr xs) =
     join '','' (map (\<lambda>x. if x = JUndefined \<or> x = JNull then [] else to_string x) xs)"
| "to_string (JObj kvs) = ''[object Object]''"

definition pad :: "nat \<Rightarrow> string" where
  "pad n = concat (replicate n ''  '')"

subsection \<open>Properties\<close>

text \<open>
  The three lookup tables of the generator are plain objects; the model covers handler
  and icon names that are not properties of \<^verbatim>\<open>Object.prototype\<close>.
\<close>

definition handlerMap :: "(string \<times> string) list" where
  "handlerMap =
     [(''openModal'', ''handleOpenModal''), (''closeModal'', ''handleCloseModal''),
      (''toggleSidebar'', ''toggleSidebar''), (''toggleDropdown'', ''toggleDropdown'')]"

definition mapHandler :: "string \<Rightarrow> json \<Rightarrow> string" where
  "mapHandler key v =
     (case map_of handlerMap (to_string v) of None \<Rightarrow> ''() => {}'' | Some h \<Rightarrow> h)"

definition icon_name :: "string \<Rightarrow> string" where
  "icon_name v = (case map_of ICON_CONFLICTS v of None \<Rightarrow> v | Some a \<Rightarrow> a)"

text \<open>One round of the loop over \<^verbatim>\<open>Object.entries(sanitized)\<close>: what is pushed, if anything.\<close>

definition prop_part :: "string \<Rightarrow> json \<Rightarrow> string list" where
  "prop_part key v =
     (if key = ''children'' then []
      else if key \<in> set HANDLER_PROPS then [key @ ''={'' @ mapHandler key v @ ''}'']
      else (case v of
              JStr s \<Rightarrow>
                if key = ''icon'' then
                  [''icon={<'' @ icon_name s @ '' className=\"h-4 w-4\" />}'']
                else if key = ''logo'' then
                  [''logo={<'' @ icon_name s @ '' className=\"h-5 w-5\" />}'']
                else if key \<in> set RAW_VALUE_PROPS then [key @ ''={'' @ stringify v @ ''}'']
                else [key @ ''=\"'' @ s @ ''\"'']
            | JArr xs \<Rightarrow>
                if key = ''data'' then [''data={'' @ stringify v @ ''}'']
                else if key \<in> set RAW_VALUE_PROPS then [key @ ''={'' @ stringify v @ ''}'']
                else []
            | JBool b \<Rightarrow>
                if key \<in> set RAW_VALUE_PROPS then [key @ ''={'' @ stringify v @ ''}'']
                else if b then [key] else [key @ ''={false}'']
            | JNum n \<Rightarrow>
                if key \<in> set RAW_VALUE_PROPS then [key @ ''={'' @ stringify v @ ''}'']
                else [key @ ''={'' @ show_int n @ ''}'']
            | _ \<Rightarrow>
                if key \<in> set RAW_VALUE_PROPS then [key @ ''={'' @ stringify v @ ''}'']
                else []))"

definition propsStr :: "props \<Rightarrow> string" where
  "propsStr san =
     (let propParts = concat (map (\<lambda>(key, v). prop_part key v) san)
      in if propParts = [] then [] else '' '' @ join '' '' propParts)"

text \<open>
  \<^verbatim>\<open>finalPropsStr.replace(/isOpen=\{[^}]*\}/, "isOpen={modalOpen}")\<close>: the first match, from
  \<^verbatim>\<open>isOpen={\<close> to the next closing brace, is replaced.
\<close>

fun replace_isOpen :: "string \<Rightarrow> string" where
  "replace_isOpen [] = []"
| "replace_isOpen (c # cs) =
     (case strip_prefix ''isOpen={'' (c # cs) of
        None \<Rightarrow> c # replace_isOpen cs
      | Some r \<Rightarrow>
          (case dropWhile (\<lambda>x. x \<noteq> CHR ''}'') r of
             [] \<Rightarrow> c # replace_isOpen cs
           | b # rest \<Rightarrow> ''isOpen={modalOpen}'' @ rest))"

text \<open>\<^verbatim>\<open>s.includes(t)\<close>\<close>

fun str_includes :: "string \<Rightarrow> string \<Rightarrow> bool" where
  "str_includes [] t = (t = [])"
| "str_includes (c # cs) t = (strip_prefix t (c # cs) \<noteq> None \<or> str_includes cs t)"

definition finalPropsStr :: "string \<Rightarrow> props \<Rightarrow> string" where
  "finalPropsStr ty san =
     (if ty = ''Modal'' then
        (let s = replace_isOpen (propsStr san)
         in if \<not> str_includes s ''onClose'' then s @ '' onClose={handleCloseModal}'' else s)
      else propsStr san)"

text \<open>The text of an element, from its sanitized properties and its rendered child nodes.\<close>

definition element_text :: "string \<Rightarrow> props \<Rightarrow> nat \<Rightarrow> string list \<Rightarrow> string" where
  "element_text ty san indent rendered =
     (let childContent =
            (case field san ''children'' of
               JStr s \<Rightarrow> if s \<noteq> [] then [pad (indent + 1) @ s] else []
             | _ \<Rightarrow> []) @ rendered
      in if childContent = [] then
           pad indent @ ''<'' @ ty @ finalPropsStr ty san @ '' />''
         else join newline
                ([pad indent @ ''<'' @ ty @ finalPropsStr ty san @ ''>''] @ childContent @
                 [pad indent @ ''</'' @ ty @ ''>'']))"

text \<open>\<^verbatim>\<open>validateAndClean\<close>: the sanitized properties and the errors.\<close>

definition validateAndClean :: "string \<Rightarrow> props \<Rightarrow> props \<times> string list \<times> string list" where
  "validateAndClean ty p =
     (let r = validateNodeProps ty p
      in if np_valid r then (sanitized r, [], []) else (p, np_errors r, []))"

definition note_icon :: "json \<Rightarrow> string list \<Rightarrow> string list" where
  "note_icon v icons = (case v of JStr s \<Rightarrow> if s \<noteq> [] then set_add s icons else icons | _ \<Rightarrow> icons)"

text \<open>What \<^verbatim>\<open>renderNode\<close> records for a node of a known type, before it renders the children.\<close>

definition record_node :: "string \<Rightarrow> props \<Rightarrow> gen_state \<Rightarrow> gen_state" where
  "record_node ty p st =
     (case validateAndClean ty p of
        (san, errs, warns) \<Rightarrow>
          \<lparr>st_errors = st_errors st @ errs,
           st_warnings = st_warnings st @ warns,
           st_components = set_add ty (st_components st),
           st_icons = note_icon (field san ''logo'') (note_icon (field san ''icon'') (st_icons st))\<rparr>)"

fun renderNode :: "child \<Rightarrow> nat \<Rightarrow> gen_state \<Rightarrow> gen_error + string \<times> gen_state"
  and renderChildren :: "child list \<Rightarrow> nat \<Rightarrow> gen_state \<Rightarrow> gen_error + string list \<times> gen_state" where
  "renderNode (Text s) indent st = Inr (pad indent @ s, st)"
| "renderNode Undefined indent st = Inl TypeError"
| "renderNode (Node ty p cs) indent st =
     (if ty \<notin> set ALLOWED_COMPONENT_TYPES then
        Inr (pad indent @ ''{/* Unknown component: '' @ ty @ '' */}'',
             st\<lparr>st_errors := st_errors st @ [''Unknown component: '' @ ty]\<rparr>)
      else (case renderChildren cs (indent + 1) (record_node ty p st) of
              Inl e \<Rightarrow> Inl e
            | Inr (rendered, st') \<Rightarrow>
                Inr (element_text ty (fst (validateAndClean ty p)) indent rendered, st')))"
| "renderChildren [] indent st = Inr ([], st)"
| "renderChildren (c # cs) indent st =
     (case renderNode c indent st of
        Inl e \<Rightarrow> Inl e
      | Inr (s, st') \<Rightarrow>
          (case renderChildren cs indent st' of
             Inl e \<Rightarrow> Inl e
           | Inr (ss, st'') \<Rightarrow> Inr (s # ss, st'')))"

subsection \<open>scanForState\<close>

record state_flags =
  needsModalState :: bool
  needsSidebarCollapse :: bool
  needsNavDropdown :: bool

fun scanNode :: "child \<Rightarrow> state_flags \<Rightarrow> gen_error + state_flags"
  and scanForState :: "child list \<Rightarrow> state_flags \<Rightarrow> gen_error + state_flags" where
  "scanNode (Text s) f = Inr f"
| "scanNode Undefined f = Inl TypeError"
| "scanNode (Node ty p cs) f =
     scanForState cs
       \<lparr>needsModalState = (needsModalState f \<or> ty = ''Modal''),
        needsSidebarCollapse =
          (needsSidebarCollapse f \<or> ty = ''Sidebar'' \<and> js_truthy (field p ''collapsible'')),
        needsNavDropdown =
          (needsNavDropdown f \<or> ty = ''Navbar'' \<and> js_truthy (field p ''hasDropdown''))\<rparr>"
| "scanForState [] f = Inr f"
| "scanForState (c # cs) f =
     (case scanNode c f of Inl e \<Rightarrow> Inl e | Inr f' \<Rightarrow> scanForState cs f')"

definition stateDeclarations :: "state_flags \<Rightarrow> string list" where
  "stateDeclarations f =
     (if needsModalState f then [''const [modalOpen, setModalOpen] = useState(false);''] else []) @
     (if needsSidebarCollapse f then
        [''const [sidebarCollapsed, setSidebarCollapsed] = useState(false);''] else []) @
     (if needsNavDropdown f then
        [''const [dropdownOpen, setDropdownOpen] = useState(false);''] else [])"

definition handlerDeclarations :: "state_flags \<Rightarrow> string list" where
  "handlerDeclarations f =
     (if needsModalState f then
        [''const handleOpenModal = () => setModalOpen(true);'',
         ''const handleCloseModal = () => setModalOpen(false);''] else []) @
     (if needsSidebarCollapse f then
        [''const toggleSidebar = () => setSidebarCollapsed(prev => !prev);''] else []) @
     (if needsNavDropdown f then
        [''const toggleDropdown = () => setDropdownOpen(prev => !prev);''] else [])"

subsection \<open>Imports\<close>

text \<open>A \<^verbatim>\<open>Map<string, Set<string>>\<close> in insertion order.\<close>

fun group_add :: "string \<Rightarrow> string \<Rightarrow> (string \<times> string list) list \<Rightarrow> (string \<times> string list) list" where
  "group_add pth nm [] = [(pth, [nm])]"
| "group_add pth nm ((q, cs) # gs) =
     (if q = pth then (q, set_add nm cs) # gs else (q, cs) # group_add pth nm gs)"

fun finalImportGroups :: "string list \<Rightarrow> (string \<times> string list) list \<Rightarrow> (string \<times> string list) list" where
  "finalImportGroups [] gs = gs"
| "finalImportGroups (nm # nms) gs =
     finalImportGroups nms
       (case map_of IMPORT_MAP nm of None \<Rightarrow> gs | Some pth \<Rightarrow> group_add pth nm gs)"

definition import_line :: "string \<times> string list \<Rightarrow> string" where
  "import_line g = ''import { '' @ join '', '' (sort (snd g)) @ '' } from \"'' @ fst g @ ''\";''"

definition icon_import :: "string \<Rightarrow> string" where
  "icon_import icon = (case map_of ICON_CONFLICTS icon of None \<Rightarrow> icon | Some a \<Rightarrow> icon @ '' as '' @ a)"

definition finalImportLines :: "bool \<Rightarrow> string list \<Rightarrow> string list \<Rightarrow> string list" where
  "finalImportLines needsState nms icons =
     (if needsState then [''import { useState } from \"react\";''] else []) @
     map import_line (finalImportGroups (nms @ [''Container'']) []) @
     (if icons \<noteq> [] then
        [''import { '' @ join '', '' (map icon_import (sort icons)) @ '' } from \"lucide-react\";'']
      else [])"

subsection \<open>generateCodeFromAST\<close>

definition is_white :: "char \<Rightarrow> bool" where
  "is_white c = is_space c"

definition trim :: "string \<Rightarrow> string" where
  "trim s = rev (dropWhile is_white (rev (dropWhile is_white s)))"

definition block :: "string list \<Rightarrow> string" where
  "block decls = (if decls \<noteq> [] then newline @ join newline (map (\<lambda>d. ''  '' @ d) decls) else [])"

definition finalCode :: "string list \<Rightarrow> state_flags \<Rightarrow> string \<Rightarrow> string" where
  "finalCode imports f jsxBody =
     join newline imports @ newline @ newline @
     ''export default function GeneratedUI() {'' @
     block (stateDeclarations f) @ block (handlerDeclarations f) @ newline @ newline @
     ''  return ('' @ newline @
     ''    <Container>'' @ newline @
     jsxBody @ newline @
     ''    </Container>'' @ newline @
     ''  );'' @ newline @
     ''}'' @ newline"

definition no_flags :: state_flags where
  "no_flags = \<lparr>needsModalState = False, needsSidebarCollapse = False, needsNavDropdown = False\<rparr>"

definition empty_state :: gen_state where
  "empty_state = \<lparr>st_errors = [], st_warnings = [], st_components = [], st_icons = []\<rparr>"

definition generateCodeFromAST :: "UIAST \<Rightarrow> gen_error + GeneratorResult" where
  "generateCodeFromAST a =
     (case scanForState (components a) no_flags of
        Inl e \<Rightarrow> Inl e
      | Inr f \<Rightarrow>
          (case renderChildren (components a) 2 empty_state of
             Inl e \<Rightarrow> Inl e
           | Inr (jsxLines, st) \<Rightarrow>
               Inr \<lparr>code = trim (finalCode
                       (finalImportLines (stateDeclarations f \<noteq> []) (st_components st) (st_icons st))
                       f (join newline jsxLines)),
                    gen_errors = st_errors st,
                    gen_warnings = st_warnings st,
                    usedComponents = st_components st,
                    usedIcons = st_icons st\<rparr>))"

subsection \<open>Trees without holes, component types, import groups\<close>

text \<open>No \<^verbatim>\<open>undefined\<close> anywhere in the tree.\<close>

fun hole_free :: "child \<Rightarrow> bool" where
  "hole_free (Text s) = True"
| "hole_free Undefined = False"
| "hole_free (Node t p cs) = list_all hole_free cs"

definition doc_of :: "child list \<Rightarrow> UIAST" where
  "doc_of cs = \<lparr>layout = LStack, theme = Light, components = cs\<rparr>"

definition component_types :: "UIAST \<Rightarrow> string set" where
  "component_types d = set (map ntype (doc_nodes d))"

definition known_types :: "child \<Rightarrow> bool" where
  "known_types c = list_all (\<lambda>n. ntype n \<in> set ALLOWED_COMPONENT_TYPES) (all_nodes c)"

text \<open>Every name of a group is imported from the module that \<^verbatim>\<open>IMPORT_MAP\<close> gives it.\<close>

definition consistent :: "(string \<times> string list) list \<Rightarrow> bool" where
  "consistent gs = list_all (\<lambda>g. list_all (\<lambda>n. map_of IMPORT_MAP n = Some (fst g)) (snd g)) gs"

subsection \<open>Example documents\<close>

definition button_doc :: json where
  "button_doc = jdoc [jnode ''Button'' [(''variant'', JStr ''primary'')] [JStr ''Click me'']]"

definition extra_key_ast :: UIAST where
  "extra_key_ast =
     \<lparr>layout = LStack, theme = Light,
      components = [Node ''Button'' [(''variant'', JStr ''primary''), (''foo'', JStr ''bar'')]
                      [Text ''Click me'']]\<rparr>"

definition modal_doc :: json where
  "modal_doc = jdoc [jnode ''Modal'' [(''title'', JStr ''onClose'')] []]"

definition modal_ast :: UIAST where
  "modal_ast =
     \<lparr>layout = LStack, theme = Light,
      components = [Node ''Modal'' [(''title'', JStr ''onClose'')] []]\<rparr>"

section \<open>Properties of the patch engine\<close>

lemma patch_loop_acc:
  "patch_loop ps cur n errs =
     (case patch_loop ps cur 0 [] of (c, m, es) \<Rightarrow> (c, n + m, errs @ es))"
proof (induction ps arbitrary: cur n errs)
  case Nil
  show ?case by simp
next
  case (Cons p ps)
  show ?case
  proof (cases "applySinglePatch cur p")
    case (Inl msg)
    show ?thesis
      using Cons.IH [of cur n "errs @ [patch_error p msg]"] Cons.IH [of cur 0 "[patch_error p msg]"]
      by (simp add: Inl split: prod.splits)
  next
    case (Inr cur')
    show ?thesis
      using Cons.IH [of cur' "Suc n" errs] Cons.IH [of cur' "Suc 0" "[]"]
      by (simp add: Inr split: prod.splits)
  qed
qed

lemma applyPatches_Cons_ok:
  "applySinglePatch a p = Inr a' \<Longrightarrow>
   applyPatches a (p # ps) =
     (applyPatches a' ps)\<lparr>appliedPatches := Suc (appliedPatches (applyPatches a' ps))\<rparr>"
  using patch_loop_acc [of ps a' "Suc 0" "[]"]
  by (simp add: applyPatches_def split: prod.splits)

lemma applyPatches_Cons_fail:
  "applySinglePatch a p = Inl msg \<Longrightarrow>
   applyPatches a (p # ps) =
     (applyPatches a ps)\<lparr>success := False,
        errors := patch_error p msg # errors (applyPatches a ps)\<rparr>"
  using patch_loop_acc [of ps a 0 "[patch_error p msg]"]
  by (simp add: applyPatches_def split: prod.splits)

lemma descend_store:
  "descend ks i cur = Inr cs \<Longrightarrow> descend ks i (store_children ks new cur) = Inr new"
proof (induction ks arbitrary: i cur)
  case Nil
  then show ?case by simp
next
  case (Cons k ks)
  then show ?case
    by (auto simp: at_index_def split: child.splits if_splits)
qed

lemma store_store:
  "store_children ks n2 (store_children ks n1 cur) = store_children ks n2 cur"
proof (induction ks arbitrary: cur)
  case Nil
  show ?case by simp
next
  case (Cons k ks)
  show ?case
    by (cases "at_index cur k") (auto simp: at_index_def Cons.IH split: if_splits)
qed

lemma fst_override [simp]: "fst (override ps e) = fst e"
  by (induction ps e rule: override.induct) auto

lemma set_prop_keys: "fst ` set (set_prop k v m) = insert k (fst ` set m)"
  by (force simp: set_prop_def split: if_splits)

lemma spread_keys: "fst ` set (spread m ps) = fst ` set m \<union> fst ` set ps"
  unfolding spread_def
proof (induction ps arbitrary: m)
  case Nil
  show ?case by simp
next
  case (Cons e ps)
  obtain k v where e: "e = (k, v)" by (cases e)
  show ?case
    using Cons.IH [of "set_prop k v m"] by (simp add: e set_prop_keys)
qed

lemma spread_present:
  "fst ` set ps \<subseteq> fst ` set m \<Longrightarrow> spread m ps = map (override ps) m"
  unfolding spread_def
proof (induction ps arbitrary: m)
  case Nil
  show ?case by (simp add: map_idI)
next
  case (Cons e ps)
  obtain k v where e: "e = (k, v)" by (cases e)
  have k: "k \<in> fst ` set m" using Cons.prems e by auto
  have sp: "set_prop k v m = map (\<lambda>x. if fst x = k then (k, v) else x) m"
    using k by (auto simp: set_prop_def)
  have "fst ` set ps \<subseteq> fst ` set (set_prop k v m)"
    using Cons.prems by (auto simp: set_prop_keys)
  from Cons.IH [OF this] show ?case
    by (simp add: e sp)
qed

lemma spread_snoc: "spread m (ps @ [(k, v)]) = set_prop k v (spread m ps)"
  by (simp add: spread_def)

lemma override_snoc:
  "override (ps @ [(k, v)]) e = (if fst e = k then (k, v) else override ps e)"
  by (induction ps e rule: override.induct) auto

lemma spread_fixed: "e \<in> set (spread m ps) \<Longrightarrow> override ps e = e"
proof (induction ps arbitrary: e rule: rev_induct)
  case Nil
  show ?case by simp
next
  case (snoc x ps)
  obtain k v where x: "x = (k, v)" by (cases x)
  from snoc.prems have "e \<in> set (set_prop k v (spread m ps))"
    by (simp add: x spread_snoc)
  then have "fst e = k \<and> e = (k, v) \<or> fst e \<noteq> k \<and> e \<in> set (spread m ps)"
    by (auto simp: set_prop_def split: if_splits)
  then show ?case
    using snoc.IH [of e] by (auto simp: x override_snoc)
qed

lemma spread_idem: "spread (spread m ps) ps = spread m ps"
proof -
  have "fst ` set ps \<subseteq> fst ` set (spread m ps)"
    by (simp add: spread_keys)
  then have "spread (spread m ps) ps = map (override ps) (spread m ps)"
    by (rule spread_present)
  also have "\<dots> = spread m ps"
    by (rule map_idI) (rule spread_fixed)
  finally show ?thesis .
qed

text \<open>The merge read as a map: a supplied key has its last supplied value, others stay.\<close>

lemma map_of_overwrite:
  "map_of (map (\<lambda>(k', v'). if k' = k then (k', v) else (k', v')) ys) x =
     (if x = k \<and> k \<in> fst ` set ys then Some v else map_of ys x)"
proof (induction ys)
  case Nil
  show ?case by simp
next
  case (Cons y ys)
  obtain a b where y: "y = (a, b)" by (cases y)
  show ?case
  proof (cases "a = k")
    case True
    then show ?thesis using Cons.IH by (auto simp: y)
  next
    case False
    then show ?thesis using Cons.IH by (force simp: y)
  qed
qed

lemma set_prop_lookup: "map_of (set_prop k v m) x = (if x = k then Some v else map_of m x)"
proof (cases "k \<in> fst ` set m")
  case True
  then show ?thesis by (simp add: set_prop_def map_of_overwrite)
next
  case False
  then have "map_of m k = None" by (simp add: map_of_eq_None_iff)
  then show ?thesis
    using False by (simp add: set_prop_def map_add_def split: option.splits)
qed

lemma spread_lookup:
  "map_of (spread m q) x = (case map_of (rev q) x of None \<Rightarrow> map_of m x | Some w \<Rightarrow> Some w)"
  unfolding spread_def
proof (induction q arbitrary: m)
  case Nil
  show ?case by simp
next
  case (Cons e q)
  obtain k v where e: "e = (k, v)" by (cases e)
  show ?case
    using Cons.IH [of "set_prop k v m"]
    by (simp add: e set_prop_lookup map_add_def split: option.splits)
qed

lemma updateNode_props_twice:
  assumes "updateNode a tp None (Some q) = Inr a'"
  shows "updateNode a' tp None (Some q) = Inr a'"
proof -
  from assms obtain cs where
    steps: "parsePath tp \<noteq> []" and
    d: "descend (butlast (parsePath tp)) 0 (components a) = Inr cs"
    by (auto simp: updateNode_def navigateToTarget_def Let_def split: sum.splits if_splits)
  define ks where "ks = butlast (parsePath tp)"
  define k where "k = last (parsePath tp)"
  have nav: "navigateToTarget a tp = Inr \<lparr>parent = ks, parent_children = cs, index = k\<rparr>"
    using steps d by (simp add: navigateToTarget_def Let_def ks_def k_def)
  from assms nav obtain ty p ch where
    ex: "at_index cs k = Node ty p ch" and
    a': "a' = a\<lparr>components := store_children ks (cs[k := Node ty (spread p q) ch]) (components a)\<rparr>"
    by (auto simp: updateNode_def truthy_def component_value_def split: child.splits)
  have klt: "k < length cs" using ex by (auto simp: at_index_def split: if_splits)
  let ?cs' = "cs[k := Node ty (spread p q) ch]"
  have d': "descend ks 0 (components a') = Inr ?cs'"
    using d by (simp add: a' ks_def descend_store)
  have nav': "navigateToTarget a' tp = Inr \<lparr>parent = ks, parent_children = ?cs', index = k\<rparr>"
    using steps d' by (simp add: navigateToTarget_def Let_def ks_def k_def)
  have ex': "at_index ?cs' k = Node ty (spread p q) ch"
    using klt by (simp add: at_index_def)
  have "updateNode a' tp None (Some q) =
          Inr (a'\<lparr>components := store_children ks
                 (?cs'[k := Node ty (spread (spread p q) q) ch]) (components a')\<rparr>)"
    by (simp add: updateNode_def nav' ex' truthy_def component_value_def)
  also have "\<dots> = Inr a'"
    by (simp add: a' spread_idem store_store)
  finally show ?thesis .
qed

text \<open>
  What \<^verbatim>\<open>addNode\<close> returns for a path of one or more steps: as components, the children
  of the parent it reached, with the new node inserted. For a single step those are the
  components themselves; for more steps they are the children of a nested node.
\<close>

lemma addNode_components:
  assumes "parsePath tp = ks @ [k]" and "descend ks 0 (components a) = Inr cs"
  shows "addNode a tp c =
     Inr (a\<lparr>components :=
            filter (\<lambda>x. \<not> is_text x)
              (if k \<ge> length cs then cs @ [c] else splice_in (k + 1) c cs)\<rparr>)"
  using assms by (simp add: addNode_def navigateToTarget_def Let_def)

text \<open>
  Claim C1 (an \<^verbatim>\<open>add\<close> under a nested parent leaves the root-level list as it was): the
  code does otherwise. After the insertion \<^verbatim>\<open>addNode\<close> assigns the nested parent's
  children to \<^verbatim>\<open>result.components\<close>, so the top-level \<^verbatim>\<open>Card\<close> of the document is
  lost and its children take its place.
\<close>

theorem nested_add_replaces_root:
  "applyPatches card_doc [nested_add] =
     \<lparr>success = True,
      ast = \<lparr>layout = LStack, theme = Light, components = [text_node ''A'', button_node]\<rparr>,
      appliedPatches = 1, errors = []\<rparr>"
  by code_simp

text \<open>
  Claim C7 as stated fails: an \<^verbatim>\<open>update\<close> patch with neither component nor props on a
  target that resolves is counted as applied and gives no error, and an \<^verbatim>\<open>add\<close> patch
  with no component is counted as applied too and stores \<^verbatim>\<open>undefined\<close> in the list.
\<close>

theorem missing_payload_counted_as_applied:
  "applyPatches card_doc [bare_update] =
     \<lparr>success = True, ast = card_doc, appliedPatches = 1, errors = []\<rparr> \<and>
   applyPatches card_doc [bare_add] =
     \<lparr>success = True,
      ast = card_doc\<lparr>components := components card_doc @ [Undefined]\<rparr>,
      appliedPatches = 1, errors = []\<rparr>"
  by code_simp

text \<open>
  Claim C7, amended: an \<^verbatim>\<open>update\<close> patch with neither a replacement component nor a
  props mapping never changes the working document, and the rest of the batch is processed
  on that same document. When its target path resolves to a component node the patch is
  counted in \<^verbatim>\<open>appliedPatches\<close> and adds no error; when the path does not resolve it is a
  per-patch failure, with an entry in \<^verbatim>\<open>errors\<close> and no count.
\<close>

theorem update_without_payload:
  assumes "action p = Update" and "component p = None" and "pprops p = None"
  shows "(case updateNode a (targetPath p) None None of
            Inr a' \<Rightarrow>
              a' = a \<and>
              applyPatches a (p # ps) =
                (applyPatches a ps)\<lparr>appliedPatches := Suc (appliedPatches (applyPatches a ps))\<rparr>
          | Inl msg \<Rightarrow>
              applyPatches a (p # ps) =
                (applyPatches a ps)\<lparr>success := False,
                   errors := patch_error p msg # errors (applyPatches a ps)\<rparr>)"
proof (cases "updateNode a (targetPath p) None None")
  case (Inl msg)
  then have "applySinglePatch a p = Inl msg"
    using assms by (simp add: applySinglePatch_def)
  then show ?thesis
    by (simp add: Inl applyPatches_Cons_fail)
next
  case (Inr a')
  then have same: "a' = a"
    by (auto simp: updateNode_def truthy_def component_value_def split: sum.splits child.splits)
  have "applySinglePatch a p = Inr a"
    using assms Inr same by (simp add: applySinglePatch_def)
  then show ?thesis
    by (simp add: Inr same applyPatches_Cons_ok)
qed

text \<open>
  The amended claim C7 at a batch of two patches: the empty update, then an add.
\<close>

theorem update_without_payload_witness:
  "action bare_update = Update \<and> component bare_update = None \<and> pprops bare_update = None \<and>
   updateNode card_doc (targetPath bare_update) None None = Inr card_doc \<and>
   applyPatches card_doc [bare_update, nested_add] =
     (applyPatches card_doc [nested_add])\<lparr>appliedPatches := 2\<rparr>"
proof -
  have h: "action bare_update = Update" "component bare_update = None" "pprops bare_update = None"
    by (simp_all add: bare_update_def)
  have u: "updateNode card_doc (targetPath bare_update) None None = Inr card_doc"
    by code_simp
  have n: "appliedPatches (applyPatches card_doc [nested_add]) = 1"
    by code_simp
  show ?thesis
    using update_without_payload [OF h, of card_doc "[nested_add]"] h u n by simp
qed

text \<open>
  Claim C8 as stated fails: a path outside the grammar is not rejected. With no
  \<^verbatim>\<open>children[n]\<close> segment in it, \<^verbatim>\<open>add\<close> appends to the root; with a segment among
  other text, \<^verbatim>\<open>update\<close> follows the segment and changes the document.
\<close>

theorem stray_path_accepted:
  "applyPatches card_doc [stray_add] =
     \<lparr>success = True,
      ast = card_doc\<lparr>components := components card_doc @ [button_node]\<rparr>,
      appliedPatches = 1, errors = []\<rparr> \<and>
   applyPatches card_doc [stray_update] =
     \<lparr>success = True,
      ast = card_doc\<lparr>components := [Node ''Card'' [(''elevation'', JNum 2)] [text_node ''A'']]\<rparr>,
      appliedPatches = 1, errors = []\<rparr>"
  by code_simp

text \<open>
  Claim C8, amended: a patch whose target path contains no \<^verbatim>\<open>children[<digits>]\<close>
  segment is rejected for \<^verbatim>\<open>update\<close> and \<^verbatim>\<open>remove\<close> with an "Invalid target path"
  error and does not modify the document; for \<^verbatim>\<open>add\<close> such a path addresses the root, and
  the component is appended to the top-level components.
\<close>

theorem path_without_segment:
  assumes "parsePath (targetPath p) = []"
  shows "(action p = Update \<or> action p = Remove \<longrightarrow>
            applyPatches a [p] =
              \<lparr>success = False, ast = a, appliedPatches = 0,
               errors = [patch_error p (''Invalid target path: '' @ quoted (targetPath p))]\<rparr>) \<and>
         (action p = Add \<longrightarrow>
            applyPatches a [p] =
              \<lparr>success = True,
               ast = a\<lparr>components := components a @ [component_value (component p)]\<rparr>,
               appliedPatches = 1, errors = []\<rparr>)"
  using assms
  by (auto simp: applyPatches_def applySinglePatch_def updateNode_def removeNode_def addNode_def
      navigateToTarget_def)

text \<open>
  The amended claim C8 at the path \<^verbatim>\<open>components/0\<close>, for \<^verbatim>\<open>add\<close> and for \<^verbatim>\<open>remove\<close>.
\<close>

theorem path_without_segment_witness:
  "parsePath (targetPath stray_add) = [] \<and> action stray_add = Add \<and>
   applyPatches card_doc [stray_add] =
     \<lparr>success = True,
      ast = card_doc\<lparr>components := components card_doc @ [button_node]\<rparr>,
      appliedPatches = 1, errors = []\<rparr> \<and>
   applyPatches card_doc [stray_add\<lparr>action := Remove\<rparr>] =
     \<lparr>success = False, ast = card_doc, appliedPatches = 0,
      errors = [''Patch \"remove\" at \"components/0\": Invalid target path: \"components/0\"'']\<rparr>"
proof -
  have h: "parsePath (targetPath stray_add) = []" by code_simp
  have h': "parsePath (targetPath (stray_add\<lparr>action := Remove\<rparr>)) = []" by code_simp
  have m: "patch_error (stray_add\<lparr>action := Remove\<rparr>)
             (''Invalid target path: '' @ quoted (targetPath (stray_add\<lparr>action := Remove\<rparr>))) =
           ''Patch \"remove\" at \"components/0\": Invalid target path: \"components/0\"''"
    by code_simp
  show ?thesis
    using path_without_segment [OF h, of card_doc] path_without_segment [OF h', of card_doc] h m
    by (simp add: stray_add_def component_value_def)
qed

text \<open>
  Claim C9: update-by-prop-merge is idempotent. Applying an \<^verbatim>\<open>update\<close> patch that carries
  only a props mapping twice in sequence yields the same document as applying it once,
  for every document and every target path.
\<close>

theorem update_props_idempotent:
  assumes "action p = Update" and "component p = None" and "pprops p = Some q"
  shows "ast (applyPatches a [p, p]) = ast (applyPatches a [p])"
proof (cases "updateNode a (targetPath p) None (Some q)")
  case (Inl msg)
  then have "applySinglePatch a p = Inl msg"
    using assms by (simp add: applySinglePatch_def)
  then show ?thesis
    by (simp add: applyPatches_def)
next
  case (Inr a')
  then have "updateNode a' (targetPath p) None (Some q) = Inr a'"
    by (rule updateNode_props_twice)
  then have "applySinglePatch a p = Inr a'" and "applySinglePatch a' p = Inr a'"
    using assms Inr by (simp_all add: applySinglePatch_def)
  then show ?thesis
    by (simp add: applyPatches_def)
qed

text \<open>
  Claim C9 at a resolvable target: the merge overwrites the key that is there, keeps its
  place and appends the new key.
\<close>

theorem update_props_idempotent_witness:
  "action merge_update = Update \<and> component merge_update = None \<and>
   pprops merge_update = Some [(''size'', JStr ''lg''), (''children'', JStr ''B'')] \<and>
   ast (applyPatches card_doc [merge_update, merge_update]) = ast (applyPatches card_doc [merge_update]) \<and>
   ast (applyPatches card_doc [merge_update]) =
     card_doc\<lparr>components :=
       [Node ''Card'' [] [Node ''Text'' [(''children'', JStr ''B''), (''size'', JStr ''lg'')] []]]\<rparr>"
proof -
  have h: "action merge_update = Update" "component merge_update = None"
    "pprops merge_update = Some [(''size'', JStr ''lg''), (''children'', JStr ''B'')]"
    by (simp_all add: merge_update_def)
  have e: "ast (applyPatches card_doc [merge_update]) =
     card_doc\<lparr>components :=
       [Node ''Card'' [] [Node ''Text'' [(''children'', JStr ''B''), (''size'', JStr ''lg'')] []]]\<rparr>"
    by code_simp
  show ?thesis
    using update_props_idempotent [OF h, of card_doc] h e by simp
qed

section \<open>Properties of the sandbox\<close>

lemma scan_patterns_mono: "set acc \<subseteq> set (scan_patterns label ps src acc)"
  by (induction ps arbitrary: acc) (auto, force)

lemma scan_patterns_hit:
  "p \<in> set ps \<Longrightarrow> test p src \<Longrightarrow> label @ source p \<in> set (scan_patterns label ps src acc)"
proof (induction ps arbitrary: acc)
  case Nil
  then show ?case by simp
next
  case (Cons q ps)
  show ?case
  proof (cases "p = q")
    case True
    have "label @ source p \<in> set (acc @ [label @ source p])" by simp
    then show ?thesis
      using Cons.prems(2) True scan_patterns_mono [of "acc @ [label @ source p]" label ps src]
      by auto
  next
    case False
    then have "p \<in> set ps" using Cons.prems(1) by simp
    then show ?thesis using Cons.IH Cons.prems(2) by simp
  qed
qed

text \<open>
  Claim C6: for every source text in which a deny-listed pattern matches (a dangerous
  construct or an unbounded-loop shape), \<^verbatim>\<open>analyzeCode\<close> returns \<^verbatim>\<open>safe == false\<close> with an
  issue that names the pattern by its source, and \<^verbatim>\<open>executeSandboxed\<close> returns a failure
  with no result and no execution time, the same whatever the runner is: the function is
  never constructed nor called.
\<close>

theorem deny_listed_pattern_blocks_execution:
  assumes "p \<in> set DANGEROUS_PATTERNS \<or> p \<in> set LOOP_PATTERNS" and "test p src"
  shows "\<not> safe (analyzeCode src) \<and>
         (p \<in> set DANGEROUS_PATTERNS \<longrightarrow>
            ''Blocked pattern detected: '' @ source p \<in> set (issues (analyzeCode src))) \<and>
         (p \<in> set LOOP_PATTERNS \<longrightarrow>
            ''Potential infinite loop: '' @ source p \<in> set (issues (analyzeCode src))) \<and>
         sb_success (executeSandboxed run src scope options) = False \<and>
         sb_result (executeSandboxed run src scope options) = None \<and>
         executionTimeMs (executeSandboxed run src scope options) = 0 \<and>
         executeSandboxed run src scope options = executeSandboxed run' src scope options"
proof -
  let ?d = "scan_patterns ''Blocked pattern detected: '' DANGEROUS_PATTERNS src []"
  let ?l = "scan_patterns ''Potential infinite loop: '' LOOP_PATTERNS src ?d"
  have iss: "issues (analyzeCode src) = ?l" and sf: "safe (analyzeCode src) = (?l = [])"
    by (simp_all add: analyzeCode_def Let_def)
  have d: "''Blocked pattern detected: '' @ source p \<in> set ?l" if "p \<in> set DANGEROUS_PATTERNS"
    using scan_patterns_hit [OF that assms(2)] scan_patterns_mono by blast
  have l: "''Potential infinite loop: '' @ source p \<in> set ?l" if "p \<in> set LOOP_PATTERNS"
    using that assms(2) by (rule scan_patterns_hit)
  have ne: "?l \<noteq> []" using assms(1) d l by auto
  then have unsafe: "\<not> safe (analyzeCode src)" by (simp add: sf)
  show ?thesis
    using unsafe d l by (auto simp: iss executeSandboxed_def Let_def)
qed

text \<open>
  Claim C6 at \<^verbatim>\<open>eval(userInput)\<close> with the default options.
\<close>

theorem deny_listed_pattern_blocks_execution_witness:
  "([WordBoundary, Lit ''eval'', Spaces, Lit ''(''] \<in> set DANGEROUS_PATTERNS \<or>
    [WordBoundary, Lit ''eval'', Spaces, Lit ''(''] \<in> set LOOP_PATTERNS) \<and>
   test [WordBoundary, Lit ''eval'', Spaces, Lit ''(''] eval_call \<and>
   analyzeCode eval_call =
     \<lparr>safe = False,
      issues = [''Blocked pattern detected: '' @ [backslash] @ ''beval'' @ [backslash] @ ''s*'' @
                [backslash] @ ''('']\<rparr> \<and>
   executeSandboxed echo_runner eval_call [] \<lparr>timeoutMs = None, maxCodeLength = None\<rparr> =
     \<lparr>sb_success = False, sb_result = None,
      sb_error = Some (''Security violation: Blocked pattern detected: '' @ [backslash] @ ''beval'' @
                       [backslash] @ ''s*'' @ [backslash] @ ''(''),
      executionTimeMs = 0\<rparr>"
proof -
  let ?p = "[WordBoundary, Lit ''eval'', Spaces, Lit ''('']"
  have h1: "?p \<in> set DANGEROUS_PATTERNS \<or> ?p \<in> set LOOP_PATTERNS"
    by (simp add: DANGEROUS_PATTERNS_def)
  have h2: "test ?p eval_call" by code_simp
  have a: "analyzeCode eval_call =
     \<lparr>safe = False,
      issues = [''Blocked pattern detected: '' @ [backslash] @ ''beval'' @ [backslash] @ ''s*'' @
                [backslash] @ ''('']\<rparr>"
    by code_simp
  have len: "\<not> int (length eval_call) > 100000" by (simp add: eval_call_def)
  have "executeSandboxed echo_runner eval_call [] \<lparr>timeoutMs = None, maxCodeLength = None\<rparr> =
     \<lparr>sb_success = False, sb_result = None,
      sb_error = Some (''Security violation: Blocked pattern detected: '' @ [backslash] @ ''beval'' @
                       [backslash] @ ''s*'' @ [backslash] @ ''(''),
      executionTimeMs = 0\<rparr>"
    using deny_listed_pattern_blocks_execution [OF h1 h2, of echo_runner "[]"
        "\<lparr>timeoutMs = None, maxCodeLength = None\<rparr>"] len
    by (simp add: executeSandboxed_def a)
  then show ?thesis using h1 h2 a by simp
qed

section \<open>Properties of the validator\<close>

lemma sort_issues_errors:
  "fst (sort_issues pth ty iss (errs, warns)) = [] \<longleftrightarrow>
   errs = [] \<and> filter (\<lambda>i. icode i \<noteq> UnrecognizedKeys) iss = []"
  by (induction iss arbitrary: errs warns) auto

lemma schema_lookup_None:
  "map_of COMPONENT_PROP_SCHEMAS t = None \<longleftrightarrow> t \<notin> set ALLOWED_COMPONENT_TYPES"
  by (simp add: ALLOWED_COMPONENT_TYPES_def map_of_eq_None_iff)

lemma validate_errors:
  "fst (validateNode c pth acc) = [] \<longleftrightarrow>
     fst acc = [] \<and> \<not> is_text c \<and> list_all node_passes (all_nodes c)"
  "fst (validateChildren cs pth i acc) = [] \<longleftrightarrow>
     fst acc = [] \<and> list_all node_passes (concat (map all_nodes cs))"
proof (induction c pth acc and cs pth i acc rule: validateNode_validateChildren.induct)
  case (1 t p cs pth errs warns)
  show ?case
  proof (cases "map_of COMPONENT_PROP_SCHEMAS t")
    case None
    then show ?thesis
      using schema_lookup_None [of t] by (simp add: node_passes_def is_text_def)
  next
    case (Some schema)
    then have known: "t \<in> set ALLOWED_COMPONENT_TYPES"
      using schema_lookup_None [of t] by simp
    define acc' where "acc' = sort_issues pth t (fst (safeParse schema p)) (errs, warns)"
    have a: "fst acc' = [] \<longleftrightarrow>
        errs = [] \<and> filter (\<lambda>i. icode i \<noteq> UnrecognizedKeys) (fst (safeParse schema p)) = []"
      by (simp add: acc'_def sort_issues_errors)
    have v: "validateNode (Node t p cs) pth (errs, warns) = validateChildren cs pth 0 acc'"
      by (simp add: Some acc'_def)
    have ih: "fst (validateChildren cs pth 0 acc') = [] \<longleftrightarrow>
        fst acc' = [] \<and> list_all node_passes (concat (map all_nodes cs))"
      using "1.IH" [OF Some] by (simp add: acc'_def)
    have n: "node_passes (Node t p cs) \<longleftrightarrow>
        filter (\<lambda>i. icode i \<noteq> UnrecognizedKeys) (fst (safeParse schema p)) = []"
      using known Some by (simp add: node_passes_def props_satisfy_but_for_keys_def)
    show ?thesis
      unfolding v ih a by (auto simp: n is_text_def)
  qed
next
  case (2 s pth errs warns)
  show ?case by (simp add: is_text_def)
next
  case (3 pth acc)
  show ?case by (simp add: is_text_def)
next
  case (4 pth i acc)
  show ?case by simp
next
  case (5 c cs pth i acc)
  define acc' where
    "acc' = (case c of Text s \<Rightarrow> acc
             | _ \<Rightarrow> validateNode c (pth @ ''.children['' @ show_nat i @ '']'') acc)"
  have ih: "fst (validateChildren cs pth (Suc i) acc') = [] \<longleftrightarrow>
      fst acc' = [] \<and> list_all node_passes (concat (map all_nodes cs))"
    using "5.IH" by (simp add: acc'_def)
  have a: "fst acc' = [] \<longleftrightarrow> fst acc = [] \<and> list_all node_passes (all_nodes c)"
  proof (cases c)
    case (Text s)
    then show ?thesis by (simp add: acc'_def)
  next
    case Undefined
    then show ?thesis by (simp add: acc'_def)
  next
    case (Node t p ds)
    then show ?thesis using "5.IH" by (simp add: acc'_def is_text_def)
  qed
  have step: "validateChildren (c # cs) pth i acc = validateChildren cs pth (Suc i) acc'"
    by (simp add: acc'_def)
  have "fst (validateChildren (c # cs) pth i acc) = [] \<longleftrightarrow>
      fst acc' = [] \<and> list_all node_passes (concat (map all_nodes cs))"
    unfolding step by (rule ih)
  also have "\<dots> \<longleftrightarrow>
      (fst acc = [] \<and> list_all node_passes (all_nodes c)) \<and>
      list_all node_passes (concat (map all_nodes cs))"
    unfolding a ..
  finally show ?case by auto
qed

lemma validateComponents_errors:
  "list_all is_node cs \<Longrightarrow>
   fst (validateComponents cs i acc) = [] \<longleftrightarrow>
     fst acc = [] \<and> list_all node_passes (concat (map all_nodes cs))"
proof (induction cs arbitrary: i acc)
  case Nil
  show ?case by simp
next
  case (Cons c cs)
  from Cons.prems have c: "is_node c" and rest: "list_all is_node cs"
    by simp_all
  have "\<not> is_text c"
    using c by (cases c) (simp_all add: is_node_def is_text_def)
  then show ?case
    using Cons.IH [OF rest] by (auto simp: validate_errors(1))
qed

lemma those_Some: "those xs = Some ys \<Longrightarrow> y \<in> set ys \<Longrightarrow> Some y \<in> set xs"
  by (induction xs arbitrary: ys) (auto split: option.splits)

lemma those_None: "those xs = None \<Longrightarrow> None \<in> set xs"
  by (induction xs) (auto split: option.splits)

lemma parse_node_is_node: "parse_node j = Some c \<Longrightarrow> is_node c"
  by (cases j) (auto simp: is_node_def split: json.splits if_splits option.splits)

lemma parse_doc_nodes: "parse_doc j = Some d \<Longrightarrow> list_all is_node (components d)"
proof -
  assume "parse_doc j = Some d"
  then obtain xs where "those (map parse_node xs) = Some (components d)"
    by (auto simp: parse_doc_def split: json.splits option.splits)
  then have "\<And>c. c \<in> set (components d) \<Longrightarrow> Some c \<in> set (map parse_node xs)"
    by (rule those_Some)
  then show ?thesis
    by (auto simp: list_all_iff dest: parse_node_is_node [OF sym])
qed

lemma invalid_type_nonempty [simp]: "[invalid_type pth e v] \<noteq> []"
  by simp

lemma element_issues_nonempty:
  "None \<in> set (map (\<lambda>x. case x of JStr s \<Rightarrow> Some (Text s) | _ \<Rightarrow> parse_node x) xs) \<Longrightarrow>
   element_issues pth i xs \<noteq> []"
  by (induction xs arbitrary: i) (auto split: json.splits option.splits)

lemma node_issues_nonempty: "parse_node j = None \<Longrightarrow> node_issues pth j \<noteq> []"
proof (cases j)
  case (JObj kvs)
  assume n: "parse_node j = None"
  show ?thesis
  proof (cases "\<exists>t. field kvs ''type'' = JStr t \<and> t \<in> set ALLOWED_COMPONENT_TYPES")
    case False
    then show ?thesis
      by (auto simp: node_issues_def JObj split: json.splits)
  next
    case True
    then obtain t where t: "field kvs ''type'' = JStr t" "t \<in> set ALLOWED_COMPONENT_TYPES"
      by blast
    show ?thesis
    proof (cases "parse_props (field kvs ''props'')")
      case None
      then show ?thesis
        by (auto simp: node_issues_def JObj parse_props_def split: json.splits)
    next
      case (Some p)
      show ?thesis
      proof (cases "field kvs ''children''")
        case (JArr xs)
        from n have "those (map (\<lambda>x. case x of JStr s \<Rightarrow> Some (Text s) | _ \<Rightarrow> parse_node x) xs) = None"
          by (simp add: JObj t Some JArr split: option.splits)
        then have "element_issues (pth @ [''children'']) 0 xs \<noteq> []"
          by (intro element_issues_nonempty those_None)
        then show ?thesis
          by (simp add: node_issues_def JObj JArr)
      qed (use n in \<open>simp_all add: node_issues_def JObj t Some\<close>)
    qed
  qed
qed (simp_all add: node_issues_def)

lemma nodes_issues_nonempty:
  "None \<in> set (map parse_node xs) \<Longrightarrow> nodes_issues pth i xs \<noteq> []"
  by (induction xs arbitrary: i) (auto dest: node_issues_nonempty [OF sym])

lemma enum_issues_nonempty:
  "map_of tbl s = None \<Longrightarrow> enum_issues (map fst tbl) pth (JStr s) \<noteq> []"
  by (simp add: enum_issues_def parse_type_def map_of_eq_None_iff)

lemma enum_issues_other:
  "(\<And>s. v \<noteq> JStr s) \<Longrightarrow> enum_issues vs pth v \<noteq> []"
  by (cases v) (auto simp: enum_issues_def parse_type_def)

lemma doc_issues_nonempty: "parse_doc j = None \<Longrightarrow> doc_issues j \<noteq> []"
proof (cases j)
  case (JObj kvs)
  assume n: "parse_doc j = None"
  show ?thesis
  proof (cases "parse_layout (field kvs ''layout'')")
    case None
    then have "enum_issues (map fst LayoutEnum) [''layout''] (field kvs ''layout'') \<noteq> []"
      by (cases "field kvs ''layout''")
         (simp_all add: parse_layout_def enum_issues_nonempty enum_issues_other)
    then show ?thesis by (simp add: doc_issues_def JObj)
  next
    case l: (Some l)
    show ?thesis
    proof (cases "parse_theme (field kvs ''theme'')")
      case None
      then have "field kvs ''theme'' \<noteq> JUndefined" and
        "enum_issues (map fst ThemeEnum) [''theme''] (field kvs ''theme'') \<noteq> []"
        by (cases "field kvs ''theme''";
            simp add: parse_theme_def enum_issues_nonempty enum_issues_other)+
      then show ?thesis
        by (cases "field kvs ''theme''") (simp_all add: doc_issues_def JObj)
    next
      case t: (Some t)
      show ?thesis
      proof (cases "field kvs ''components''")
        case (JArr xs)
        from n have "those (map parse_node xs) = None"
          by (simp add: parse_doc_def JObj l t JArr split: option.splits)
        then have "nodes_issues [''components''] 0 xs \<noteq> []"
          by (intro nodes_issues_nonempty those_None)
        then show ?thesis by (simp add: doc_issues_def JObj JArr)
      qed (simp_all add: doc_issues_def JObj)
    qed
  qed
qed (simp_all add: doc_issues_def)

text \<open>
  Claim C3 as stated fails from left to right: a document whose \<^verbatim>\<open>Button\<close> carries an
  undeclared key is valid, although the properties of that node do not satisfy the strict
  schema of its type.
\<close>

theorem extra_key_valid_but_schema_fails:
  "valid (validateUIAST extra_key_doc) \<and>
   parse_doc extra_key_doc =
     Some \<lparr>layout = LStack, theme = Light,
           components = [Node ''Button'' [(''variant'', JStr ''primary''), (''foo'', JStr ''bar'')]
                           [Text ''Click me'']]\<rparr> \<and>
   \<not> props_satisfy_schema ''Button'' [(''variant'', JStr ''primary''), (''foo'', JStr ''bar'')]"
  by code_simp

text \<open>
  Claim C3, amended: \<^verbatim>\<open>validateUIAST(D).valid\<close> is true if and only if \<open>D\<close> parses against
  the document schema and every node of the parsed document has a registry-known type and
  properties that raise, against the schema of that type and after defaults, no issue
  other than unrecognized keys. \<^verbatim>\<open>valid\<close> is false exactly when the error list is not
  empty: an unknown component type and an out-of-domain property value each come with an
  error.
\<close>

theorem validateUIAST_valid_iff:
  "(valid (validateUIAST j) \<longleftrightarrow>
      (case parse_doc j of
         None \<Rightarrow> False
       | Some d \<Rightarrow> list_all node_passes (doc_nodes d))) \<and>
   (valid (validateUIAST j) \<longleftrightarrow> val_errors (validateUIAST j) = [])"
proof (cases "parse_doc j")
  case None
  then show ?thesis
    by (simp add: validateUIAST_def UIASTSchema_safeParse_def doc_issues_nonempty)
next
  case (Some d)
  then have "list_all is_node (components d)" by (rule parse_doc_nodes)
  then have "fst (validateComponents (components d) 0 ([], [])) = [] \<longleftrightarrow>
      list_all node_passes (doc_nodes d)"
    by (simp add: validateComponents_errors doc_nodes_def)
  then show ?thesis
    by (cases "validateComponents (components d) 0 ([], [])")
       (simp add: validateUIAST_def UIASTSchema_safeParse_def Some)
qed

section \<open>Properties of the code generator\<close>

lemma those_map_Some:
  "those (map f xs) = Some ys \<Longrightarrow> y \<in> set ys \<Longrightarrow> \<exists>x \<in> set xs. f x = Some y"
  using those_Some [of "map f xs" ys y] by auto

lemma parse_node_sound: "parse_node j = Some c \<Longrightarrow> hole_free c \<and> known_types c"
proof (induction j arbitrary: c rule: parse_node.induct)
  case (1 kvs)
  from "1.prems" obtain t p where t: "field kvs ''type'' = JStr t"
    and known: "t \<in> set ALLOWED_COMPONENT_TYPES"
    and p: "parse_props (field kvs ''props'') = Some p"
    by (auto split: json.splits if_splits option.splits)
  show ?case
  proof (cases "field kvs ''children''")
    case JUndefined
    with "1.prems" t known p have "c = Node t p []" by simp
    then show ?thesis using known by (simp add: known_types_def)
  next
    case (JArr xs)
    let ?f = "\<lambda>x. case x of JStr s \<Rightarrow> Some (Text s) | _ \<Rightarrow> parse_node x"
    from "1.prems" t known p JArr obtain cs where cs: "those (map ?f xs) = Some cs"
      and c: "c = Node t p cs"
      by (auto split: option.splits)
    have each: "hole_free y \<and> known_types y" if "y \<in> set cs" for y
    proof -
      from those_map_Some [OF cs that] obtain x where x: "x \<in> set xs" and fx: "?f x = Some y"
        by blast
      show ?thesis
      proof (cases "\<exists>s. x = JStr s")
        case True
        then show ?thesis using fx by (auto simp: known_types_def)
      next
        case False
        then have "parse_node x = Some y" using fx by (cases x) auto
        then show ?thesis
          using "1.IH" [OF t known p JArr x] False by (cases x) auto
      qed
    qed
    then show ?thesis
      using known by (auto simp: c known_types_def list_all_iff)
  qed (use "1.prems" t known p in \<open>simp_all\<close>)
qed simp_all

lemma scan_total:
  "hole_free c \<Longrightarrow> \<exists>f'. scanNode c f = Inr f'"
  "list_all hole_free cs \<Longrightarrow> \<exists>f'. scanForState cs f = Inr f'"
proof (induction c f and cs f rule: scanNode_scanForState.induct)
  case (5 c cs f)
  then obtain f' where "scanNode c f = Inr f'" by auto
  then show ?case using 5 by auto
qed auto

lemma record_node_components [simp]:
  "st_components (record_node ty p st) = set_add ty (st_components st)"
  by (simp add: record_node_def split: prod.splits)

lemma set_set_add [simp]: "set (set_add x xs) = insert x (set xs)"
  by (auto simp: set_add_def)

lemma render_components:
  "hole_free c \<Longrightarrow> known_types c \<Longrightarrow>
   \<exists>s st'. renderNode c indent st = Inr (s, st') \<and>
     set (st_components st') = set (st_components st) \<union> set (map ntype (all_nodes c))"
  "list_all hole_free cs \<Longrightarrow> list_all known_types cs \<Longrightarrow>
   \<exists>ss st'. renderChildren cs indent st = Inr (ss, st') \<and>
     set (st_components st') = set (st_components st) \<union> set (map ntype (concat (map all_nodes cs)))"
proof (induction c indent st and cs indent st rule: renderNode_renderChildren.induct)
  case (1 s indent st)
  show ?case by simp
next
  case (2 indent st)
  then show ?case by simp
next
  case (3 ty p cs indent st)
  from "3.prems" have known: "ty \<in> set ALLOWED_COMPONENT_TYPES"
    and hf: "list_all hole_free cs" and kt: "list_all known_types cs"
    by (auto simp: known_types_def list_all_iff)
  from "3.IH" [OF _ hf kt] known obtain ss st' where
    r: "renderChildren cs (indent + 1) (record_node ty p st) = Inr (ss, st')" and
    c: "set (st_components st') =
        set (st_components (record_node ty p st)) \<union> set (map ntype (concat (map all_nodes cs)))"
    by blast
  show ?case
    using known r c by auto
next
  case (4 indent st)
  show ?case by simp
next
  case (5 c cs indent st)
  from "5.prems" have hc: "hole_free c" "known_types c"
    and hcs: "list_all hole_free cs" "list_all known_types cs"
    by simp_all
  from "5.IH"(1) [OF hc] obtain s st1 where
    r1: "renderNode c indent st = Inr (s, st1)" and
    c1: "set (st_components st1) = set (st_components st) \<union> set (map ntype (all_nodes c))"
    by blast
  from "5.IH"(2) [OF r1 refl hcs] obtain ss st2 where
    r2: "renderChildren cs indent st1 = Inr (ss, st2)" and
    c2: "set (st_components st2) =
         set (st_components st1) \<union> set (map ntype (concat (map all_nodes cs)))"
    by blast
  show ?case
    using r1 r2 c1 c2 by auto
qed

lemma group_add_names:
  "set (concat (map snd (group_add pth nm gs))) = insert nm (set (concat (map snd gs)))"
  by (induction pth nm gs rule: group_add.induct) auto

lemma group_add_paths: "fst ` set (group_add pth nm gs) = insert pth (fst ` set gs)"
  by (induction pth nm gs rule: group_add.induct) auto

lemma group_add_distinct:
  "distinct (map fst gs) \<Longrightarrow> distinct (map fst (group_add pth nm gs))"
proof (induction pth nm gs rule: group_add.induct)
  case (2 pth nm q cs gs)
  then show ?case
    using group_add_paths [of pth nm gs] by (auto simp: image_iff)
qed simp

lemma group_add_consistent:
  "map_of IMPORT_MAP nm = Some pth \<Longrightarrow> consistent gs \<Longrightarrow> consistent (group_add pth nm gs)"
  by (induction pth nm gs rule: group_add.induct) (auto simp: consistent_def list_all_iff)

lemma finalImportGroups_props:
  assumes "\<forall>nm \<in> set nms. map_of IMPORT_MAP nm \<noteq> None"
    and "distinct (map fst gs)" and "consistent gs"
  shows "set (concat (map snd (finalImportGroups nms gs))) = set nms \<union> set (concat (map snd gs)) \<and>
         distinct (map fst (finalImportGroups nms gs)) \<and> consistent (finalImportGroups nms gs)"
  using assms
proof (induction nms arbitrary: gs)
  case Nil
  then show ?case by simp
next
  case (Cons nm nms)
  then obtain pth where pth: "map_of IMPORT_MAP nm = Some pth" by auto
  have "distinct (map fst (group_add pth nm gs))" and "consistent (group_add pth nm gs)"
    using Cons.prems pth by (simp_all add: group_add_distinct group_add_consistent)
  from Cons.IH [OF _ this] Cons.prems(1) show ?case
    using group_add_names [of pth nm gs] by (simp add: pth)
qed

lemma allowed_types_imported:
  "list_all (\<lambda>t. map_of IMPORT_MAP t \<noteq> None) (ALLOWED_COMPONENT_TYPES @ [''Container''])"
  by code_simp

lemma import_line_head: "\<exists>l. import_line g = CHR ''i'' # l"
  by (simp add: import_line_def)

lemma finalImportLines_head:
  "finalImportGroups (nms @ [''Container'']) [] \<noteq> [] \<Longrightarrow>
   \<exists>l ls. finalImportLines b nms icons = (CHR ''i'' # l) # ls"
proof -
  assume "finalImportGroups (nms @ [''Container'']) [] \<noteq> []"
  then obtain g gs where g: "finalImportGroups (nms @ [''Container'']) [] = g # gs"
    by (cases "finalImportGroups (nms @ [''Container'']) []") auto
  obtain l where "import_line g = CHR ''i'' # l" using import_line_head by blast
  then show ?thesis
    by (simp add: finalImportLines_def g)
qed

lemma join_head: "\<exists>r. join sep ((c # l) # ls) = c # r"
  by (cases ls) auto

lemma not_white_i [simp]: "\<not> is_white (CHR ''i'')" and not_white_brace [simp]: "\<not> is_white (CHR ''}'')"
  and white_newline [simp]: "is_white (CHR 0x0A)"
  by (simp_all add: is_white_def is_space_def)

lemma trim_between: "trim (CHR ''i'' # r @ ''}'' @ newline) = CHR ''i'' # r @ ''}''"
  by (simp add: trim_def newline_def)

lemma trim_finalCode:
  assumes "imports = (CHR ''i'' # l) # ls"
  shows "trim (finalCode imports f jsxBody) =
     join newline imports @ newline @ newline @
     ''export default function GeneratedUI() {'' @
     block (stateDeclarations f) @ block (handlerDeclarations f) @ newline @ newline @
     ''  return ('' @ newline @
     ''    <Container>'' @ newline @
     jsxBody @ newline @
     ''    </Container>'' @ newline @
     ''  );'' @ newline @
     ''}''"
proof -
  obtain r where r: "join newline imports = CHR ''i'' # r"
    using join_head [of newline "CHR ''i''" l ls] assms by auto
  define m where "m = r @ newline @ newline @
     ''export default function GeneratedUI() {'' @
     block (stateDeclarations f) @ block (handlerDeclarations f) @ newline @ newline @
     ''  return ('' @ newline @
     ''    <Container>'' @ newline @
     jsxBody @ newline @
     ''    </Container>'' @ newline @
     ''  );'' @ newline"
  have "finalCode imports f jsxBody = CHR ''i'' # m @ ''}'' @ newline"
    by (simp add: finalCode_def r m_def)
  then have "trim (finalCode imports f jsxBody) = CHR ''i'' # m @ ''}''"
    by (simp only: trim_between)
  then show ?thesis
    by (simp add: r m_def)
qed

text \<open>
  Claim C2 (an undeclared key is a warning for the validator, and the generator strips
  it without an error): the first half holds, the second does not. For a node with an
  undeclared key the strict parse in \<^verbatim>\<open>validateNodeProps\<close> fails, \<^verbatim>\<open>validateAndClean\<close> falls
  back to the raw properties, and the generator writes \<^verbatim>\<open>foo="bar"\<close> into the element,
  applies no default and records an error.
\<close>

theorem unknown_prop_emitted_and_reported:
  "validateUIAST extra_key_doc =
     \<lparr>valid = True, val_errors = [],
      val_warnings = [''components[0].props: Unknown prop(s) foo on <Button> '' @ dash @ '' stripped''],
      sanitizedAST = Some extra_key_ast\<rparr> \<and>
   generateCodeFromAST extra_key_ast =
     Inr \<lparr>code = join newline
            [''import { Button } from \"@/components/ui-lib/Button\";'',
             ''import { Container } from \"@/components/ui-lib/Layouts\";'',
             [],
             ''export default function GeneratedUI() {'',
             [],
             ''  return ('',
             ''    <Container>'',
             ''    <Button variant=\"primary\" foo=\"bar\">'',
             ''      Click me'',
             ''    </Button>'',
             ''    </Container>'',
             ''  );'',
             ''}''],
          gen_errors = ['': Unrecognized key(s) in object: '' @ single_quoted ''foo''],
          gen_warnings = [], usedComponents = [''Button''], usedIcons = []\<rparr>"
  by code_simp

text \<open>
  Claim C5 (a \<^verbatim>\<open>Modal\<close> without \<^verbatim>\<open>onClose\<close> gets the generated close handler): the code
  decides by \<^verbatim>\<open>finalPropsStr.includes("onClose")\<close>, a search in the text of all attributes.
  A valid \<^verbatim>\<open>Modal\<close> whose title is the word \<^verbatim>\<open>onClose\<close> has no \<^verbatim>\<open>onClose\<close> property and
  gets no handler.
\<close>

theorem modal_title_suppresses_close_handler:
  "validateUIAST modal_doc =
     \<lparr>valid = True, val_errors = [], val_warnings = [], sanitizedAST = Some modal_ast\<rparr> \<and>
   generateCodeFromAST modal_ast =
     Inr \<lparr>code = join newline
            [''import { useState } from \"react\";'',
             ''import { Modal } from \"@/components/ui-lib/Modal\";'',
             ''import { Container } from \"@/components/ui-lib/Layouts\";'',
             [],
             ''export default function GeneratedUI() {'',
             ''  const [modalOpen, setModalOpen] = useState(false);'',
             ''  const handleOpenModal = () => setModalOpen(true);'',
             ''  const handleCloseModal = () => setModalOpen(false);'',
             [],
             ''  return ('',
             ''    <Container>'',
             ''    <Modal isOpen={modalOpen} title=\"onClose\" variant=\"primary\" elevation={2} animation=\"fade\" />'',
             ''    </Container>'',
             ''  );'',
             ''}''],
          gen_errors = [], gen_warnings = [], usedComponents = [''Modal''], usedIcons = []\<rparr>"
  by code_simp

lemma valid_parse:
  assumes "sanitizedAST (validateUIAST j) = Some d"
  shows "parse_doc j = Some d"
proof (cases "parse_doc j")
  case None
  then show ?thesis
    using assms by (simp add: validateUIAST_def UIASTSchema_safeParse_def)
next
  case (Some d')
  then show ?thesis
    using assms
    by (cases "validateComponents (components d') 0 ([], [])")
       (simp add: validateUIAST_def UIASTSchema_safeParse_def)
qed

lemma parse_doc_sound:
  assumes "parse_doc j = Some d"
  shows "list_all hole_free (components d) \<and> list_all known_types (components d)"
proof -
  from assms obtain xs where "those (map parse_node xs) = Some (components d)"
    by (auto simp: parse_doc_def split: json.splits option.splits)
  then have "\<exists>x \<in> set xs. parse_node x = Some c" if "c \<in> set (components d)" for c
    using that by (rule those_map_Some)
  then show ?thesis
    by (auto simp: list_all_iff dest: parse_node_sound)
qed

text \<open>
  Claim C4: for every document that validates, generation succeeds, and the component
  imports of the generated code are the groups of exactly the component types of the
  document and \<^verbatim>\<open>Container\<close>, each name under the module that \<^verbatim>\<open>IMPORT_MAP\<close> gives it and
  each module once; before them stands at most the \<^verbatim>\<open>useState\<close> import, after them at
  most the icon import. The rendered nodes are wrapped in a \<^verbatim>\<open>Container\<close> element.
\<close>

theorem imports_are_document_types_and_container:
  assumes "valid (validateUIAST j)" and "sanitizedAST (validateUIAST j) = Some d"
  shows "\<exists>g f jsxLines.
      generateCodeFromAST d = Inr g \<and>
      (let groups = finalImportGroups (usedComponents g @ [''Container'']) [] in
         set (concat (map snd groups)) = component_types d \<union> {''Container''} \<and>
         consistent groups \<and> distinct (map fst groups) \<and>
         code g =
           join newline
             ((if stateDeclarations f \<noteq> [] then [''import { useState } from \"react\";''] else []) @
              map import_line groups @
              (if usedIcons g \<noteq> [] then
                 [''import { '' @ join '', '' (map icon_import (sort (usedIcons g))) @
                  '' } from \"lucide-react\";'']
               else [])) @
           newline @ newline @
           ''export default function GeneratedUI() {'' @
           block (stateDeclarations f) @ block (handlerDeclarations f) @ newline @ newline @
           ''  return ('' @ newline @
           ''    <Container>'' @ newline @
           join newline jsxLines @ newline @
           ''    </Container>'' @ newline @
           ''  );'' @ newline @
           ''}'')"
proof -
  from assms(2) have "parse_doc j = Some d" by (rule valid_parse)
  then have hf: "list_all hole_free (components d)" and kt: "list_all known_types (components d)"
    using parse_doc_sound by blast+
  from scan_total(2) [OF hf] obtain f where f: "scanForState (components d) no_flags = Inr f"
    by blast
  from render_components(2) [OF hf kt, of 2 empty_state] obtain jsxLines st where
    r: "renderChildren (components d) 2 empty_state = Inr (jsxLines, st)" and
    c: "set (st_components st) = component_types d"
    by (auto simp: empty_state_def component_types_def doc_nodes_def)
  define g where "g =
    \<lparr>code = trim (finalCode
              (finalImportLines (stateDeclarations f \<noteq> []) (st_components st) (st_icons st))
              f (join newline jsxLines)),
     gen_errors = st_errors st, gen_warnings = st_warnings st,
     usedComponents = st_components st, usedIcons = st_icons st\<rparr>"
  have gen: "generateCodeFromAST d = Inr g"
    by (simp add: generateCodeFromAST_def f r g_def)
  define groups where "groups = finalImportGroups (usedComponents g @ [''Container'']) []"
  have "\<forall>n \<in> component_types d. n \<in> set ALLOWED_COMPONENT_TYPES"
    using kt by (auto simp: component_types_def doc_nodes_def known_types_def list_all_iff)
  then have "\<forall>nm \<in> set (usedComponents g @ [''Container'']). map_of IMPORT_MAP nm \<noteq> None"
    using allowed_types_imported c by (auto simp: g_def list_all_iff)
  from finalImportGroups_props [OF this, of "[]"]
  have names: "set (concat (map snd groups)) = component_types d \<union> {''Container''}"
    and cons: "consistent groups" and dist: "distinct (map fst groups)"
    using c by (auto simp: groups_def consistent_def g_def)
  from names have "groups \<noteq> []" by auto
  then obtain l ls where
    "finalImportLines (stateDeclarations f \<noteq> []) (usedComponents g) (usedIcons g) = (CHR ''i'' # l) # ls"
    using finalImportLines_head unfolding groups_def by blast
  from trim_finalCode [OF this, of f "join newline jsxLines"]
  have "code g =
      join newline (finalImportLines (stateDeclarations f \<noteq> []) (usedComponents g) (usedIcons g)) @
      newline @ newline @
      ''export default function GeneratedUI() {'' @
      block (stateDeclarations f) @ block (handlerDeclarations f) @ newline @ newline @
      ''  return ('' @ newline @
      ''    <Container>'' @ newline @
      join newline jsxLines @ newline @
      ''    </Container>'' @ newline @
      ''  );'' @ newline @
      ''}''"
    by (simp add: g_def)
  then show ?thesis
    using gen names cons dist
    unfolding Let_def finalImportLines_def groups_def
    by blast
qed

text \<open>
  Claim C4 at the document of one \<^verbatim>\<open>Button\<close>, which never names \<^verbatim>\<open>Container\<close>.
\<close>

theorem imports_are_document_types_and_container_witness:
  "valid (validateUIAST button_doc) \<and>
   sanitizedAST (validateUIAST button_doc) = Some (doc_of [button_node]) \<and>
   component_types (doc_of [button_node]) = {''Button''} \<and>
   (\<exists>g f jsxLines.
      generateCodeFromAST (doc_of [button_node]) = Inr g \<and>
      (let groups = finalImportGroups (usedComponents g @ [''Container'']) [] in
         set (concat (map snd groups)) = component_types (doc_of [button_node]) \<union> {''Container''} \<and>
         consistent groups \<and> distinct (map fst groups) \<and>
         code g =
           join newline
             ((if stateDeclarations f \<noteq> [] then [''import { useState } from \"react\";''] else []) @
              map import_line groups @
              (if usedIcons g \<noteq> [] then
                 [''import { '' @ join '', '' (map icon_import (sort (usedIcons g))) @
                  '' } from \"lucide-react\";'']
               else [])) @
           newline @ newline @
           ''export default function GeneratedUI() {'' @
           block (stateDeclarations f) @ block (handlerDeclarations f) @ newline @ newline @
           ''  return ('' @ newline @
           ''    <Container>'' @ newline @
           join newline jsxLines @ newline @
           ''    </Container>'' @ newline @
           ''  );'' @ newline @
           ''}''))"
proof -
  have v: "valid (validateUIAST button_doc)" by code_simp
  have s: "sanitizedAST (validateUIAST button_doc) = Some (doc_of [button_node])" by code_simp
  have t: "component_types (doc_of [button_node]) = {''Button''}"
    by (simp add: component_types_def doc_nodes_def doc_of_def button_node_def)
  show ?thesis
    using imports_are_document_types_and_container [OF v s] v s t by blast
qed

end
